theory Spec2Isabelle
  imports Complex_Main
begin

section \<open>Las Vegas Live: hand scoring, discard, betting and settlement\<close>

text \<open>
  A shallow embedding of the first \<open>Home\<close> component of \<open>src/pages/Home.tsx\<close>: the pure
  helpers \<open>calculateHandScore\<close> and \<open>getFilteredHand\<close> and the handlers
  \<open>applySilentDiscard\<close>, \<open>revealNextCard\<close>, \<open>handleBet\<close>, \<open>submitFinal\<close>,
  \<open>calculateWinners\<close> and \<open>handleNextHand\<close>.

  Conventions of the model.
  \<^item> An amount of money is a real number, and the double that the program holds for it is
    \<open>fl\<close> of it, the nearest double: \<open>1 / 10\<close> stands for the double that JavaScript
    writes \<open>0.1\<close>. Where the source rounds with \<open>toFixed(2)\<close> a number that need not be
    in whole cents (the slider value, a quotient of the pot, a sum or difference with a
    balance, which is whatever \<open>parseFloat(budgetInput)\<close> gave at \<open>joinGame\<close>), the model
    rounds the double, as the binary value decides the cent there. \<open>lastBet\<close>,
    \<open>currentBet\<close> and \<open>pot\<close> are written in whole cents only, and their sums and
    differences are the exact ones, which for whole cents below a thousand million is what
    the doubles give (\<open>plusToFixed2_cents\<close>, \<open>minusToFixed2_cents\<close>). Amounts are
    compared as real numbers, which is the comparison of their doubles unless two different
    amounts have the same nearest double. \<open>totalBetThisHand\<close>, which the source sums
    without rounding, is the exact sum.
  \<^item> A number that holds a score is an \<open>int\<close>, and \<open>NaN\<close> is \<open>None\<close>.
  \<^item> The Firebase document is the record \<open>Store\<close>. A handler reads the snapshot held
    by the component and writes to the store; the model takes the store to hold that same
    snapshot when the handler starts, and returns the store after all writes of the handler.
  \<^item> A handler that returns before writing gives \<open>Inl\<close> of the reason; the store is
    then untouched.
  \<^item> Toast texts, console output and the \<open>lastAction\<close> display string are left out.
\<close>

subsection \<open>Cards\<close>

record CardObj =
  cvalue :: string
  suit :: string
  color :: string

datatype Choice = CMin | CMax

definition VALUES :: "string list" where
  "VALUES = [''A'', ''2'', ''3'', ''4'', ''5'', ''6''] @
            [''7'', ''8'', ''9'', ''10'', ''J'', ''Q'', ''K'']"

record Suit =
  symbol :: string
  suitColor :: string
  suitName :: string

text \<open>The four suit symbols are written as their UTF-8 bytes.\<close>

definition SUITS :: "Suit list" where
  "SUITS =
    [\<lparr>symbol = [CHR 0xE2, CHR 0x99, CHR 0xA5], suitColor = ''red'', suitName = ''hearts''\<rparr>,
     \<lparr>symbol = [CHR 0xE2, CHR 0x99, CHR 0xA6], suitColor = ''red'', suitName = ''diamonds''\<rparr>,
     \<lparr>symbol = [CHR 0xE2, CHR 0x99, CHR 0xA3], suitColor = ''black'', suitName = ''clubs''\<rparr>,
     \<lparr>symbol = [CHR 0xE2, CHR 0x99, CHR 0xA0], suitColor = ''black'', suitName = ''spades''\<rparr>]"

subsection \<open>The library function \<open>parseInt\<close>\<close>

definition isWhiteSpace :: "char \<Rightarrow> bool" where
  "isWhiteSpace c \<longleftrightarrow> (of_char c :: nat) \<in> {9, 10, 11, 12, 13, 32}"

definition digitOf :: "char \<Rightarrow> nat option" where
  "digitOf c =
     (let n = (of_char c :: nat) in
      if 48 \<le> n \<and> n \<le> 57 then Some (n - 48)
      else if 97 \<le> n \<and> n \<le> 102 then Some (n - 87)
      else if 65 \<le> n \<and> n \<le> 70 then Some (n - 55)
      else None)"

definition isDigitIn :: "nat \<Rightarrow> char \<Rightarrow> bool" where
  "isDigitIn radix c = (case digitOf c of None \<Rightarrow> False | Some d \<Rightarrow> d < radix)"

definition digitVal :: "char \<Rightarrow> nat" where
  "digitVal c = (case digitOf c of None \<Rightarrow> 0 | Some d \<Rightarrow> d)"

text \<open>
  \<open>parseInt(s)\<close> without a radix: leading white space is skipped, a sign is read, a
  \<open>0x\<close> prefix selects base 16, and the longest prefix of digits is the value; with no
  digit the result is \<open>NaN\<close> (\<open>None\<close>).
\<close>

definition parseInt :: "string \<Rightarrow> int option" where
  "parseInt s =
     (let s1 = dropWhile isWhiteSpace s;
          neg = (take 1 s1 = ''-'');
          s2 = (if take 1 s1 = ''-'' \<or> take 1 s1 = ''+'' then drop 1 s1 else s1);
          hex = (take 2 s2 = ''0x'' \<or> take 2 s2 = ''0X'');
          radix = (if hex then 16 else 10);
          s3 = (if hex then drop 2 s2 else s2);
          ds = takeWhile (isDigitIn radix) s3
      in if ds = [] then None
         else Some ((if neg then - 1 else 1) *
                    int (foldl (\<lambda>a c. a * radix + digitVal c) 0 ds)))"

subsection \<open>Scoring\<close>

text \<open>Addition of two numbers either of which may be \<open>NaN\<close>.\<close>

definition jsAdd :: "int option \<Rightarrow> int option \<Rightarrow> int option" where
  "jsAdd a b = (case a of None \<Rightarrow> None | Some x \<Rightarrow> (case b of None \<Rightarrow> None | Some y \<Rightarrow> Some (x + y)))"

text \<open>The body of the \<open>reduce\<close> callback of \<open>calculateHandScore\<close>: the value of one card.\<close>

definition cardPoints :: "CardObj \<Rightarrow> Choice \<Rightarrow> int option" where
  "cardPoints crd choice =
     (if cvalue crd = ''A'' then Some (if choice = CMax then 11 else 1)
      else if cvalue crd \<in> set [''J'', ''Q'', ''K''] then Some 10
      else parseInt (cvalue crd))"

definition calculateHandScore :: "CardObj list \<Rightarrow> Choice \<Rightarrow> int option" where
  "calculateHandScore hand choice =
     (if hand = [] then Some 0
      else foldl (\<lambda>total crd. jsAdd total (cardPoints crd choice)) (Some 0) hand)"

text \<open>
  \<open>getFilteredHand(playerHand, revealedCards)\<close>: the stored hand without the cards whose
  value is among the revealed values. \<open>None\<close> is a \<open>null\<close> or absent hand.
\<close>

definition getFilteredHand :: "CardObj list option \<Rightarrow> CardObj list \<Rightarrow> CardObj list" where
  "getFilteredHand playerHand revealed =
     (case playerHand of
        None \<Rightarrow> []
      | Some h \<Rightarrow>
          if h = [] then []
          else if revealed = [] then h
          else (let revealedValues = map cvalue revealed
                in filter (\<lambda>crd. \<not> (cvalue crd \<in> set revealedValues)) h))"

subsection \<open>The scoring rule in the words of the specification\<close>

text \<open>
  Numeral cards 2 to 10 contribute their face value; J, Q and K contribute 10; the Ace
  contributes 1 under rule min and 11 under rule max. A hand scores the sum of its cards.
\<close>

definition spec_cardTable :: "Choice \<Rightarrow> (string \<times> int) list" where
  "spec_cardTable rule =
     [(''2'', 2), (''3'', 3), (''4'', 4), (''5'', 5), (''6'', 6), (''7'', 7), (''8'', 8),
      (''9'', 9), (''10'', 10), (''J'', 10), (''Q'', 10), (''K'', 10),
      (''A'', (case rule of CMin \<Rightarrow> 1 | CMax \<Rightarrow> 11))]"

definition spec_cardValue :: "Choice \<Rightarrow> CardObj \<Rightarrow> int" where
  "spec_cardValue rule crd =
     (case map_of (spec_cardTable rule) (cvalue crd) of None \<Rightarrow> 0 | Some n \<Rightarrow> n)"

definition spec_scoreHand :: "CardObj list \<Rightarrow> Choice \<Rightarrow> int" where
  "spec_scoreHand hand rule = sum_list (map (spec_cardValue rule) hand)"

subsection \<open>The shared document\<close>

datatype Phase = Lobby | Betting | Revealing | Final | Results

text \<open>
  \<open>currentPlayerTurn\<close> is optional in the source and every test of it treats the absent
  value and the empty string alike: the model holds the empty string for both. An absent
  \<open>waitingForDealer\<close> or \<open>isFirstHand\<close> is \<open>False\<close>; an absent \<open>revealedCards\<close> is the
  empty list.
\<close>

record GameState =
  phase :: Phase
  pot :: real
  currentBet :: real
  revealedCards :: "CardObj list"
  totalCards :: int
  handSize :: "int option"
  adminId :: string
  dealerIndex :: int
  currentPlayerTurn :: string
  waitingForDealer :: bool
  isFirstHand :: bool

text \<open>
  The field \<open>id\<close> of the source is \<open>pid\<close> here. Optional fields are options;
  \<open>folded\<close> is compared with \<open>=== false\<close> in the source, so the absent value is kept
  apart from \<open>false\<close>. An absent \<open>discardedCards\<close> is read as the empty list by the source
  and is the empty list here.
\<close>

record Player =
  pid :: string
  username :: string
  balance :: real
  isAdmin :: bool
  isBot :: bool
  lastBet :: real
  finalScore :: "int option"
  choice :: "Choice option"
  position :: int
  hasActed :: bool
  folded :: "bool option"
  hand :: "CardObj list option"
  totalBetThisHand :: "real option"
  originalHand :: "CardObj list option"
  discardedCards :: "CardObj list"

text \<open>
  One line of \<open>winnersInfo\<close>: the winner's name, the amount shown and the tag
  (\<open>[LAS VEGAS]\<close>, \<open>MIN\<close> or \<open>MAX\<close>, with the tie mark \<open>Pareggio\<close>). The history entry
  holds the lines in order instead of their join with commas.
\<close>

datatype WinnerTag = LasVegas | MinWin bool | MaxWin bool

record WinnerInfo =
  winnerName :: string
  amount :: real
  tag :: WinnerTag

record HistoryEntry =
  winners :: "WinnerInfo list"
  potAmount :: real
  timestamp :: int

text \<open>
  The object \<open>game/players\<close> is keyed by player id and each player carries its own key in
  \<open>id\<close> (\<open>joinGame\<close> and \<open>handleAddBot\<close> write it so); the model holds the players as the
  list \<open>Object.values\<close> returns, and a write to \<open>game/players/<id>/...\<close> changes the
  entries with that \<open>pid\<close>.
\<close>

record Store =
  gameState :: "GameState option"
  players :: "Player list"
  history :: "HistoryEntry list"

datatype Rejected =
    NoOp
  | AzioneBloccata
  | NonTuoTurno
  | PuntataNonValida
  | SaldoInsufficiente
  | PunteggioNonValido
  | PunteggioErrato
  | NessunVincitore
  | NessunValoreDisponibile
  | ScritturaRifiutata

subsection \<open>Numbers\<close>

text \<open>
  \<open>parseFloat(x.toFixed(2))\<close> of the number \<open>x\<close> itself: the nearest multiple of 0.01, a
  tie going away from zero. \<open>toFixed\<close> rounds the exact value of a double, so on a double
  \<open>d\<close> it is \<open>toFixed2 d\<close>.
\<close>

definition toFixed2 :: "real \<Rightarrow> real" where
  "toFixed2 x =
     (if x < 0 then - (of_int \<lfloor>(- x) * 100 + 1 / 2\<rfloor> / 100)
      else of_int \<lfloor>x * 100 + 1 / 2\<rfloor> / 100)"

text \<open>An amount in whole cents.\<close>

definition isCents :: "real \<Rightarrow> bool" where
  "isCents x \<longleftrightarrow> of_int \<lfloor>x * 100\<rfloor> = x * 100"

text \<open>
  The nearest double, ties to even: \<open>frexp53\<close> scales a positive number by powers of two
  into the range from \<open>2^52\<close> to \<open>2^53\<close>, where the doubles are the integers,
  \<open>roundEven\<close> rounds it there, and \<open>fl\<close> scales back. The exponent is not bounded as
  that of a double is: a number below \<open>2^-1022\<close> keeps 53 bits and a number from \<open>2^1024\<close>
  is not made \<open>Infinity\<close>, and one that 1100 scalings do not bring into the range is
  returned as it is; no amount of money is that small or that large.
\<close>

definition roundEven :: "real \<Rightarrow> int" where
  "roundEven m =
     (let f = \<lfloor>m\<rfloor>; d = m - of_int f in
      if d < 1 / 2 then f else if 1 / 2 < d then f + 1 else if even f then f else f + 1)"

fun frexp53 :: "nat \<Rightarrow> real \<Rightarrow> real \<Rightarrow> (real \<times> real) option" where
  "frexp53 0 s m = None"
| "frexp53 (Suc k) s m =
     (if m < 2 ^ 52 then frexp53 k (s / 2) (m * 2)
      else if 2 ^ 53 \<le> m then frexp53 k (s * 2) (m / 2)
      else Some (s, m))"

definition fl :: "real \<Rightarrow> real" where
  "fl x =
     (if x = 0 then 0
      else (case frexp53 1100 1 \<bar>x\<bar> of
              None \<Rightarrow> x
            | Some (s, m) \<Rightarrow> sgn x * of_int (roundEven m) * s))"

text \<open>\<open>parseFloat((a + b).toFixed(2))\<close> and \<open>parseFloat((a - b).toFixed(2))\<close> on doubles.\<close>

definition plusToFixed2 :: "real \<Rightarrow> real \<Rightarrow> real" where
  "plusToFixed2 a b = toFixed2 (fl (fl a + fl b))"

definition minusToFixed2 :: "real \<Rightarrow> real \<Rightarrow> real" where
  "minusToFixed2 a b = toFixed2 (fl (fl a - fl b))"

text \<open>\<open>Array.prototype.findIndex\<close>: the first index holding a match, or \<open>-1\<close>.\<close>

fun findIndex :: "('a \<Rightarrow> bool) \<Rightarrow> 'a list \<Rightarrow> int" where
  "findIndex P [] = - 1"
| "findIndex P (x # xs) =
     (if P x then 0 else (let r = findIndex P xs in if r = - 1 then - 1 else r + 1))"

text \<open>\<open>players[id]\<close>.\<close>

definition lookupPlayer :: "Player list \<Rightarrow> string \<Rightarrow> Player option" where
  "lookupPlayer ps i = find (\<lambda>p. pid p = i) ps"

subsection \<open>Turn order\<close>

text \<open>
  \<open>getNextActivePlayerId\<close>: \<open>None\<close> is \<open>null\<close>. \<open>Array.prototype.sort\<close> is stable, as
  \<open>sort_key\<close> is.
\<close>

definition activePlayers :: "Player list \<Rightarrow> Player list" where
  "activePlayers ps = sort_key position (filter (\<lambda>p. folded p = Some False \<and> balance p > 0) ps)"

definition getNextActivePlayerId :: "GameState \<Rightarrow> Player list \<Rightarrow> string option" where
  "getNextActivePlayerId gs ps =
     (let playerList = activePlayers ps in
      if length playerList \<le> 1 then None
      else (let currentIndex = findIndex (\<lambda>p. pid p = currentPlayerTurn gs) playerList in
            if currentIndex = - 1 then Some (pid (playerList ! 0))
            else (let nextIndex = (currentIndex + 1) mod int (length playerList)
                  in Some (pid (playerList ! nat nextIndex)))))"

text \<open>\<open>nextPlayerId || ""\<close>.\<close>

definition orEmpty :: "string option \<Rightarrow> string" where
  "orEmpty x = (case x of None \<Rightarrow> [] | Some i \<Rightarrow> i)"

subsection \<open>Betting\<close>

text \<open>
  \<open>handleBet\<close>, called by the client whose player id is \<open>localPlayerId\<close> with the slider
  at \<open>betAmount\<close>. The toast that announces the cap of 2.00 is not a rejection: the
  handler goes on with the capped value. \<open>betVal\<close> and \<open>lastBet\<close> are in whole cents, so
  \<open>diff\<close> is their exact difference; the balance is not, and the new balance is rounded
  from the difference of the doubles.
\<close>

definition betValOf :: "real \<Rightarrow> real" where
  "betValOf betAmount =
     (let betVal = toFixed2 (fl betAmount) in if betVal > 2 then 2 else betVal)"

definition minBetOf :: "GameState \<Rightarrow> real" where
  "minBetOf gs = (if currentBet gs = 0 then 1 / 10 else currentBet gs)"

definition betDiff :: "real \<Rightarrow> Player \<Rightarrow> real" where
  "betDiff betVal currentUser = max 0 (toFixed2 (betVal - lastBet currentUser))"

definition handleBet :: "string option \<Rightarrow> bool \<Rightarrow> real \<Rightarrow> Store \<Rightarrow> Rejected + Store" where
  "handleBet localPlayerId isAdminMode betAmount db =
     (case gameState db of
        None \<Rightarrow> Inl AzioneBloccata
      | Some gs \<Rightarrow>
         (case localPlayerId of
            None \<Rightarrow> Inl AzioneBloccata
          | Some lid \<Rightarrow>
             (case (if lid = [] then None else lookupPlayer (players db) lid) of
                None \<Rightarrow> Inl AzioneBloccata
              | Some currentUser \<Rightarrow>
                  if waitingForDealer gs then Inl AzioneBloccata
                  else if \<not> isAdminMode \<and> currentPlayerTurn gs \<noteq> lid then Inl NonTuoTurno
                  else
                    (let betVal = betValOf betAmount;
                         minBet = minBetOf gs
                     in if betVal < minBet then Inl PuntataNonValida
                        else
                          (let diff = betDiff betVal currentUser
                           in if diff > balance currentUser then Inl SaldoInsufficiente
                              else
                                (let nextPlayerId = getNextActivePlayerId gs (players db)
                                 in Inr (db\<lparr>
                                      gameState := Some (gs\<lparr>
                                        pot := toFixed2 (pot gs + diff),
                                        currentBet := betVal,
                                        currentPlayerTurn := orEmpty nextPlayerId\<rparr>),
                                      players := map (\<lambda>p.
                                        if pid p = lid then
                                          p\<lparr>balance := minusToFixed2 (balance currentUser) diff,
                                            lastBet := betVal,
                                            hasActed := True,
                                            totalBetThisHand := Some
                                              ((case totalBetThisHand currentUser of
                                                  None \<Rightarrow> 0 | Some t \<Rightarrow> t) + diff)\<rparr>
                                        else if betVal > currentBet gs then p\<lparr>hasActed := False\<rparr>
                                        else p) (players db)\<rparr>)))))))"

subsection \<open>Silent discard\<close>

text \<open>
  The filter of \<open>applySilentDiscard\<close> that keeps, of the cards with one value and suit,
  the first: \<open>index === self.findIndex(...)\<close>.
\<close>

definition uniqueDiscarded :: "CardObj list \<Rightarrow> CardObj list" where
  "uniqueDiscarded self =
     map snd (filter (\<lambda>(index, crd).
                 int index = findIndex (\<lambda>c. cvalue c = cvalue crd \<and> suit c = suit crd) self)
              (enumerate 0 self))"

text \<open>The body of the loop over the players, for one player.\<close>

definition discardPlayer :: "CardObj \<Rightarrow> Player \<Rightarrow> Player" where
  "discardPlayer lastRevealedCard player =
     (case hand player of
        None \<Rightarrow> player
      | Some h \<Rightarrow>
          if h = [] then player
          else (let cardsToDiscard = filter (\<lambda>crd. cvalue crd = cvalue lastRevealedCard) h in
                if length cardsToDiscard > 0 then
                  (let newHand = filter (\<lambda>crd. cvalue crd \<noteq> cvalue lastRevealedCard) h;
                       currentDiscarded = discardedCards player;
                       updatedDiscarded = currentDiscarded @ cardsToDiscard
                   in player\<lparr>hand := Some newHand,
                             discardedCards := uniqueDiscarded updatedDiscarded\<rparr>)
                else player))"

text \<open>
  \<open>applySilentDiscard\<close> reads the component's \<open>gameState\<close> and \<open>players\<close> and writes
  the new hands and discard lists under \<open>game/players\<close>. With no table, no revealed card
  or no match in any hand, nothing is written.
\<close>

definition applySilentDiscard :: "Store \<Rightarrow> Store" where
  "applySilentDiscard db =
     (case gameState db of
        None \<Rightarrow> db
      | Some gs \<Rightarrow>
          if revealedCards gs = [] then db
          else (let lastRevealedCard = last (revealedCards gs)
                in db\<lparr>players := map (discardPlayer lastRevealedCard) (players db)\<rparr>))"

subsection \<open>Revealing a shared card\<close>

text \<open>\<open>Math.floor(Math.random() * n)\<close>, for the value \<open>r\<close> that \<open>Math.random()\<close> returned.\<close>

definition randomIndex :: "real \<Rightarrow> nat \<Rightarrow> nat" where
  "randomIndex r n = nat \<lfloor>r * real n\<rfloor>"

definition resetBets :: "Player \<Rightarrow> Player" where
  "resetBets p = p\<lparr>lastBet := 0, hasActed := False\<rparr>"

text \<open>
  \<open>revealNextCard\<close>, with \<open>r1\<close> and \<open>r2\<close> the two values of \<open>Math.random()\<close>. When the
  new card is the last one the handler writes the table and resets the bets, and that is
  all. Otherwise it writes the new \<open>revealedCards\<close>, resets the bets, and a timer of 100 ms
  then calls \<open>applySilentDiscard\<close> and writes the table again. \<open>applySilentDiscard\<close> and
  \<open>revealNextCard\<close> are closures of one render of the component: the \<open>gameState\<close> and
  \<open>players\<close> that \<open>applySilentDiscard\<close> reads in the timer are the ones \<open>revealNextCard\<close>
  itself read, that is the table before the new card was appended; the hands and discard
  lists it computes from them are what it writes. The result is the store once the timer
  has run.
\<close>

definition revealNextCard :: "real \<Rightarrow> real \<Rightarrow> Store \<Rightarrow> Rejected + Store" where
  "revealNextCard r1 r2 db =
     (case gameState db of
        None \<Rightarrow> Inl NoOp
      | Some gs \<Rightarrow>
         (let revealedValues = map cvalue (revealedCards gs);
              availableValues = filter (\<lambda>v. \<not> (v \<in> set revealedValues)) VALUES
          in if availableValues = [] then Inl NessunValoreDisponibile
             else
               (let v = availableValues ! randomIndex r1 (length availableValues);
                    st = SUITS ! randomIndex r2 (length SUITS);
                    nextCard = \<lparr>cvalue = v, suit = symbol st, color = suitColor st\<rparr>;
                    currentRevealed = revealedCards gs;
                    nextRevealed = currentRevealed @ [nextCard]
                in if int (length nextRevealed) \<ge> totalCards gs then
                     Inr (db\<lparr>
                       gameState := Some (gs\<lparr>
                         revealedCards := nextRevealed,
                         phase := Final,
                         currentBet := 0,
                         currentPlayerTurn := [],
                         waitingForDealer := False,
                         isFirstHand := False\<rparr>),
                       players := map resetBets (players db)\<rparr>)
                   else
                     Inr (db\<lparr>
                       gameState := Some (gs\<lparr>
                         revealedCards := nextRevealed,
                         phase := Betting,
                         currentBet := 0,
                         currentPlayerTurn := [],
                         waitingForDealer := True,
                         isFirstHand := False\<rparr>),
                       players := map resetBets (players (applySilentDiscard db))\<rparr>))))"

subsection \<open>Declaring the final score\<close>

text \<open>
  \<open>submitFinal(choice)\<close>, called by the client whose player id is \<open>localPlayerId\<close> with
  \<open>finalScoreInput\<close> in the text field.
\<close>

definition submitFinal :: "string option \<Rightarrow> string \<Rightarrow> Choice \<Rightarrow> Store \<Rightarrow> Rejected + Store" where
  "submitFinal localPlayerId finalScoreInput choice0 db =
     (case (case localPlayerId of None \<Rightarrow> None
            | Some lid \<Rightarrow> if lid = [] then None else lookupPlayer (players db) lid) of
        None \<Rightarrow> Inl NoOp
      | Some currentUser \<Rightarrow>
          if finalScoreInput = [] then Inl NoOp
          else
            (case gameState db of
               None \<Rightarrow> Inl NoOp
             | Some gs \<Rightarrow>
                (case parseInt finalScoreInput of
                   None \<Rightarrow> Inl PunteggioNonValido
                 | Some declaredScore \<Rightarrow>
                    (let filteredHand = getFilteredHand (hand currentUser) (revealedCards gs);
                         correctScore = calculateHandScore filteredHand choice0
                     in if Some declaredScore \<noteq> correctScore then Inl PunteggioErrato
                        else Inr (db\<lparr>players := map (\<lambda>p.
                                   if pid p = pid currentUser
                                   then p\<lparr>choice := Some choice0, finalScore := Some declaredScore\<rparr>
                                   else p) (players db)\<rparr>)))))"

text \<open>
  The declaration of the bots, in the effect of the admin client for the phase
  \<open>final\<close>. \<open>rnd i\<close> is the value of \<open>Math.random()\<close> for the bot at index \<open>i\<close> of
  \<open>botsWithoutChoice\<close>. The store takes no \<open>NaN\<close>: a write that holds one is refused whole.
\<close>

definition botsWithoutChoice :: "Player list \<Rightarrow> Player list" where
  "botsWithoutChoice ps =
     (let playerList = sort_key position (filter (\<lambda>p. folded p = Some False) ps);
          activePlayers0 = filter (\<lambda>p. username p \<noteq> []) playerList
      in filter (\<lambda>p. isBot p \<and> choice p = None) activePlayers0)"

definition botChoice :: "real \<Rightarrow> Choice" where
  "botChoice r = (if r > 1 / 2 then CMax else CMin)"

definition botDeclarations :: "(nat \<Rightarrow> real) \<Rightarrow> GameState \<Rightarrow> Player list
    \<Rightarrow> (string \<times> Choice \<times> int option) list" where
  "botDeclarations rnd gs ps =
     map (\<lambda>(i, bot).
            (let choice0 = botChoice (rnd i);
                 filteredHand = getFilteredHand (hand bot) (revealedCards gs);
                 finalScore0 = calculateHandScore filteredHand choice0
             in (pid bot, choice0, finalScore0)))
         (enumerate 0 (botsWithoutChoice ps))"

definition botAutoDeclare :: "bool \<Rightarrow> (nat \<Rightarrow> real) \<Rightarrow> Store \<Rightarrow> Rejected + Store" where
  "botAutoDeclare isAdminMode rnd db =
     (case gameState db of
        None \<Rightarrow> Inl NoOp
      | Some gs \<Rightarrow>
          if \<not> isAdminMode \<or> waitingForDealer gs then Inl NoOp
          else if filter (\<lambda>p. folded p = Some False) (players db) = [] then Inl NoOp
          else if phase gs \<noteq> Final then Inl NoOp
          else if botsWithoutChoice (players db) = [] then Inl NoOp
          else
            (let updates = botDeclarations rnd gs (players db)
             in if \<exists>u \<in> set updates. snd (snd u) = None then Inl ScritturaRifiutata
                else Inr (db\<lparr>players := map (\<lambda>p.
                            (case map_of (rev updates) (pid p) of
                               None \<Rightarrow> p
                             | Some (choice0, finalScore0) \<Rightarrow>
                                 p\<lparr>choice := Some choice0, finalScore := finalScore0\<rparr>))
                          (players db)\<rparr>)))"

subsection \<open>Settlement\<close>

text \<open>
  \<open>Math.min\<close> and \<open>Math.max\<close> of a list of integers; of no argument they are the
  infinities, which no score equals, and \<open>None\<close> stands for them.
\<close>

definition mathMin :: "int list \<Rightarrow> int option" where
  "mathMin xs = (case xs of [] \<Rightarrow> None | x # r \<Rightarrow> Some (fold min r x))"

definition mathMax :: "int list \<Rightarrow> int option" where
  "mathMax xs = (case xs of [] \<Rightarrow> None | x # r \<Rightarrow> Some (fold max r x))"

text \<open>The players that take part in the settlement, and the two groups.\<close>

definition declaredPlayers :: "Player list \<Rightarrow> Player list" where
  "declaredPlayers ps =
     filter (\<lambda>p. folded p = Some False \<and> choice p \<noteq> None \<and> finalScore p \<noteq> None) ps"

definition minPlayersOf :: "Player list \<Rightarrow> Player list" where
  "minPlayersOf ps = filter (\<lambda>p. choice p = Some CMin) (declaredPlayers ps)"

definition maxPlayersOf :: "Player list \<Rightarrow> Player list" where
  "maxPlayersOf ps = filter (\<lambda>p. choice p = Some CMax) (declaredPlayers ps)"

text \<open>\<open>p.finalScore!\<close> is read on declared players only.\<close>

definition minWinnersOf :: "Player list \<Rightarrow> Player list" where
  "minWinnersOf ps =
     (let minScores = map (\<lambda>p. the (finalScore p)) (minPlayersOf ps);
          minBestScore = mathMin minScores
      in filter (\<lambda>p. finalScore p = minBestScore) (minPlayersOf ps))"

definition maxWinnersOf :: "Player list \<Rightarrow> Player list" where
  "maxWinnersOf ps =
     (let maxScores = map (\<lambda>p. the (finalScore p)) (maxPlayersOf ps);
          maxBestScore = mathMax maxScores
      in filter (\<lambda>p. finalScore p = maxBestScore) (maxPlayersOf ps))"

text \<open>
  \<open>share\<close> is a double: the pot as the program holds it, or its half, which is a double
  again. \<open>splitAmount\<close> is \<open>toFixed(2)\<close> of the quotient of doubles.
\<close>

definition shareOf :: "real \<Rightarrow> Player list \<Rightarrow> real" where
  "shareOf pot0 ps =
     (if length (minPlayersOf ps) > 0 \<and> length (maxPlayersOf ps) > 0 then fl pot0 / 2
      else fl pot0)"

definition splitAmountOf :: "real \<Rightarrow> Player list \<Rightarrow> Player list \<Rightarrow> real" where
  "splitAmountOf pot0 ps groupWinners =
     toFixed2 (fl (shareOf pot0 ps / real (length groupWinners)))"

text \<open>
  The object \<open>updates\<close> of \<open>calculateWinners\<close> holds balances only: a list of player id
  and new balance, in the order of the assignments. A later assignment to the same path
  replaces an earlier one.
\<close>

definition applyBalances :: "(string \<times> real) list \<Rightarrow> Player list \<Rightarrow> Player list" where
  "applyBalances updates ps =
     map (\<lambda>p. case map_of (rev updates) (pid p) of
                 None \<Rightarrow> p
               | Some b \<Rightarrow> p\<lparr>balance := b\<rparr>) ps"

definition normalUpdates :: "real \<Rightarrow> Player list \<Rightarrow> (string \<times> real) list" where
  "normalUpdates pot0 ps =
     (if length (minPlayersOf ps) > 0
      then map (\<lambda>w. (pid w, plusToFixed2 (balance w) (splitAmountOf pot0 ps (minWinnersOf ps))))
               (minWinnersOf ps)
      else []) @
     (if length (maxPlayersOf ps) > 0
      then map (\<lambda>w. (pid w, plusToFixed2 (balance w) (splitAmountOf pot0 ps (maxWinnersOf ps))))
               (maxWinnersOf ps)
      else [])"

definition normalWinnersInfo :: "real \<Rightarrow> Player list \<Rightarrow> WinnerInfo list" where
  "normalWinnersInfo pot0 ps =
     (if length (minPlayersOf ps) > 0
      then map (\<lambda>w. \<lparr>winnerName = username w,
                     amount = splitAmountOf pot0 ps (minWinnersOf ps),
                     tag = MinWin (length (minWinnersOf ps) > 1)\<rparr>) (minWinnersOf ps)
      else []) @
     (if length (maxPlayersOf ps) > 0
      then map (\<lambda>w. \<lparr>winnerName = username w,
                     amount = splitAmountOf pot0 ps (maxWinnersOf ps),
                     tag = MaxWin (length (maxWinnersOf ps) > 1)\<rparr>) (maxWinnersOf ps)
      else [])"

text \<open>
  The three writes that end \<open>calculateWinners\<close>: the balances when there are any, the
  history entry when \<open>winnersInfo\<close> is not empty, and the table, of which only \<open>phase\<close>
  and \<open>isFirstHand\<close> (and the display string) are written.
\<close>

definition commitSettlement :: "int \<Rightarrow> real \<Rightarrow> (string \<times> real) list \<Rightarrow> WinnerInfo list
    \<Rightarrow> GameState \<Rightarrow> Store \<Rightarrow> Store" where
  "commitSettlement now pot0 updates winnersInfo gs db =
     db\<lparr>players := (if length updates > 0 then applyBalances updates (players db)
                    else players db),
        history := (if length winnersInfo > 0
                    then history db @
                         [\<lparr>winners = winnersInfo, potAmount = pot0, timestamp = now\<rparr>]
                    else history db),
        gameState := Some (gs\<lparr>phase := Results, isFirstHand := False\<rparr>)\<rparr>"

text \<open>
  \<open>calculateWinners(specialWinnerId)\<close>; \<open>now\<close> is the value of \<open>Date.now()\<close>. An absent
  or empty \<open>specialWinnerId\<close> selects the settlement by scores.
\<close>

definition calculateWinners :: "string option \<Rightarrow> int \<Rightarrow> Store \<Rightarrow> Rejected + Store" where
  "calculateWinners specialWinnerId now db =
     (case gameState db of
        None \<Rightarrow> Inl NoOp
      | Some gs \<Rightarrow>
         (let pot0 = pot gs in
          if specialWinnerId \<noteq> None \<and> specialWinnerId \<noteq> Some [] then
            (case lookupPlayer (players db) (the specialWinnerId) of
               Some winnerObj \<Rightarrow>
                 Inr (commitSettlement now pot0
                        [(pid winnerObj, plusToFixed2 (balance winnerObj) pot0)]
                        [\<lparr>winnerName = username winnerObj, amount = toFixed2 (fl pot0),
                          tag = LasVegas\<rparr>] gs db)
             | None \<Rightarrow> Inr (commitSettlement now pot0 [] [] gs db))
          else
            (let playerList = declaredPlayers (players db) in
             if length playerList = 0 then Inl NessunVincitore
             else Inr (commitSettlement now pot0
                         (normalUpdates pot0 (players db))
                         (normalWinnersInfo pot0 (players db)) gs db))))"

text \<open>
  \<open>handleNextHand\<close>. The write patches the table; where there is no table the source
  creates one that holds the six written fields only, which the model, having no partial
  table, leaves absent.
\<close>

definition handleNextHand :: "bool \<Rightarrow> Store \<Rightarrow> Rejected + Store" where
  "handleNextHand isAdminMode db =
     (if \<not> isAdminMode then Inl NoOp
      else Inr (db\<lparr>gameState := map_option (\<lambda>gs. gs\<lparr>
                     phase := Lobby,
                     pot := 0,
                     currentBet := 0,
                     revealedCards := [],
                     waitingForDealer := True,
                     isFirstHand := False\<rparr>) (gameState db)\<rparr>))"

subsection \<open>Concrete cards, players and tables\<close>

definition mkCard :: "string \<Rightarrow> string \<Rightarrow> CardObj" where
  "mkCard v s = \<lparr>cvalue = v, suit = s, color = ''''\<rparr>"

text \<open>A player as \<open>joinGame\<close> writes it, with the id for name.\<close>

definition mkPlayer :: "string \<Rightarrow> int \<Rightarrow> real \<Rightarrow> Player" where
  "mkPlayer i pos b =
     \<lparr>pid = i, username = i, balance = b, isAdmin = False, isBot = False, lastBet = 0,
      finalScore = None, choice = None, position = pos, hasActed = False,
      folded = Some False, hand = None, totalBetThisHand = Some 0, originalHand = None,
      discardedCards = []\<rparr>"

text \<open>A table in the phase \<open>betting\<close> with the dealer confirmed and nothing bet yet.\<close>

definition mkTable :: "int \<Rightarrow> CardObj list \<Rightarrow> string \<Rightarrow> GameState" where
  "mkTable n revealed turn =
     \<lparr>phase = Betting, pot = 0, currentBet = 0, revealedCards = revealed, totalCards = n,
      handSize = Some 5, adminId = ''admin'', dealerIndex = 0, currentPlayerTurn = turn,
      waitingForDealer = False, isFirstHand = False\<rparr>"

subsection \<open>Notions used in the statements\<close>

text \<open>The cards a player holds; an absent hand holds none.\<close>

definition cardsOf :: "Player \<Rightarrow> CardObj list" where
  "cardsOf p = (case hand p of None \<Rightarrow> [] | Some h \<Rightarrow> h)"

text \<open>Value and suit, by which \<open>applySilentDiscard\<close> tells one card from another.\<close>

definition cardKey :: "CardObj \<Rightarrow> string \<times> string" where
  "cardKey c = (cvalue c, suit c)"

text \<open>
  A table whose last revealed card is a 5, a player who holds two 5s and a 9 and has already
  discarded a King, and a player who holds no 5.
\<close>

definition discardStore :: Store where
  "discardStore =
     \<lparr>gameState = Some (mkTable 4 [mkCard ''K'' ''d'', mkCard ''5'' ''c''] ''p1''),
      players = [(mkPlayer ''p1'' 0 10)\<lparr>hand := Some [mkCard ''5'' ''h'', mkCard ''5'' ''s'', mkCard ''9'' ''d''],
                                        discardedCards := [mkCard ''K'' ''h'']\<rparr>,
                 (mkPlayer ''p2'' 1 10)\<lparr>hand := Some [mkCard ''2'' ''h'', mkCard ''3'' ''s'']\<rparr>],
      history = []\<rparr>"

text \<open>The cards of a player whose value is not the value of any revealed card.\<close>

definition survivingCards :: "Player \<Rightarrow> CardObj list \<Rightarrow> CardObj list" where
  "survivingCards p revealed = filter (\<lambda>c. cvalue c \<notin> cvalue ` set revealed) (cardsOf p)"

text \<open>
  The final table of a round with the shared cards K and 5, and a player whose stored hand
  still holds a 5 beside an Ace and a 9.
\<close>

definition declareStore :: Store where
  "declareStore =
     \<lparr>gameState = Some ((mkTable 2 [mkCard ''K'' ''d'', mkCard ''5'' ''c''] [])\<lparr>phase := Final\<rparr>),
      players = [(mkPlayer ''p1'' 0 10)
                   \<lparr>hand := Some [mkCard ''A'' ''h'', mkCard ''5'' ''s'', mkCard ''9'' ''d'']\<rparr>,
                 (mkPlayer ''bot'' 1 100)
                   \<lparr>isBot := True, hand := Some [mkCard ''K'' ''h'', mkCard ''3'' ''s'']\<rparr>],
      history = []\<rparr>"

text \<open>
  A run of calls of \<open>handleBet\<close>, each with its caller, its admin flag and its amount; a
  rejected call leaves the store as it was.
\<close>

fun betSegment :: "(string option \<times> bool \<times> real) list \<Rightarrow> Store \<Rightarrow> Store" where
  "betSegment [] db = db"
| "betSegment ((localPlayerId, isAdminMode, betAmount) # calls) db =
     betSegment calls
       (case handleBet localPlayerId isAdminMode betAmount db of
          Inl e \<Rightarrow> db
        | Inr db' \<Rightarrow> db')"

text \<open>
  Three seated players; it is the turn of \<open>p1\<close>, who has bet 0.20 in this segment, and
  the bet to match is 0.50.
\<close>

definition betStore :: Store where
  "betStore =
     \<lparr>gameState = Some ((mkTable 4 [] ''p1'')\<lparr>pot := 7 / 10, currentBet := 1 / 2\<rparr>),
      players = [(mkPlayer ''p1'' 0 10)\<lparr>lastBet := 2 / 10, hasActed := True,
                                        totalBetThisHand := Some (2 / 10)\<rparr>,
                 (mkPlayer ''p2'' 1 10)\<lparr>lastBet := 1 / 2, hasActed := True,
                                        totalBetThisHand := Some (1 / 2)\<rparr>,
                 (mkPlayer ''p3'' 2 (3 / 10))],
      history = []\<rparr>"



text \<open>
  The table before settlement with 10.00 in the pot: A and B declared 5 under min, C
  declared 20 under max; their balances are 1.00, 2.00 and 3.00.
\<close>

definition settleStore :: Store where
  "settleStore =
     \<lparr>gameState = Some ((mkTable 4 [] [])\<lparr>phase := Final, pot := 10\<rparr>),
      players = [(mkPlayer ''A'' 0 1)\<lparr>choice := Some CMin, finalScore := Some 5\<rparr>,
                 (mkPlayer ''B'' 1 2)\<lparr>choice := Some CMin, finalScore := Some 5\<rparr>,
                 (mkPlayer ''C'' 2 3)\<lparr>choice := Some CMax, finalScore := Some 20\<rparr>],
      history = []\<rparr>"

text \<open>The same table with 0.30 in the pot.\<close>

definition tieStore :: Store where
  "tieStore =
     settleStore\<lparr>gameState := Some ((mkTable 4 [] [])\<lparr>phase := Final, pot := 3 / 10\<rparr>)\<rparr>"

text \<open>What a handler's result shows of the table and of the players.\<close>

definition potAfter :: "Rejected + Store \<Rightarrow> real option" where
  "potAfter r = (case r of Inl e \<Rightarrow> None | Inr db \<Rightarrow> map_option pot (gameState db))"

definition balancesAfter :: "Rejected + Store \<Rightarrow> real list" where
  "balancesAfter r = (case r of Inl e \<Rightarrow> [] | Inr db \<Rightarrow> map balance (players db))"

text \<open>A card as \<open>buildDeck\<close> makes it, of the suit at index \<open>n\<close> of \<open>SUITS\<close>.\<close>

definition deckCard :: "string \<Rightarrow> nat \<Rightarrow> CardObj" where
  "deckCard v n = \<lparr>cvalue = v, suit = symbol (SUITS ! n), color = suitColor (SUITS ! n)\<rparr>"

text \<open>
  A round of four shared cards in the phase \<open>revealing\<close>, with one player who holds
  A, K, 7, 9, 8: before the first shared card, and with the shared cards 2, 3 and 4 on the
  table.
\<close>

definition dealtStore :: Store where
  "dealtStore =
     \<lparr>gameState = Some ((mkTable 4 [] [])\<lparr>phase := Revealing\<rparr>),
      players = [(mkPlayer ''p1'' 0 10)
                   \<lparr>hand := Some [deckCard ''A'' 3, deckCard ''K'' 1, deckCard ''7'' 2,
                                  deckCard ''9'' 2, deckCard ''8'' 2],
                    originalHand := Some [deckCard ''A'' 3, deckCard ''K'' 1, deckCard ''7'' 2,
                                  deckCard ''9'' 2, deckCard ''8'' 2]\<rparr>],
      history = []\<rparr>"

definition lastRevealStore :: Store where
  "lastRevealStore =
     dealtStore\<lparr>gameState := Some ((mkTable 4
        [deckCard ''2'' 0, deckCard ''3'' 0, deckCard ''4'' 0] [])\<lparr>phase := Revealing\<rparr>)\<rparr>"

text \<open>What a handler's result shows of the round.\<close>

definition phaseAfter :: "Rejected + Store \<Rightarrow> Phase option" where
  "phaseAfter r = (case r of Inl e \<Rightarrow> None | Inr db \<Rightarrow> map_option phase (gameState db))"

definition revealedAfter :: "Rejected + Store \<Rightarrow> CardObj list" where
  "revealedAfter r =
     (case r of Inl e \<Rightarrow> []
      | Inr db \<Rightarrow> (case gameState db of None \<Rightarrow> [] | Some gs \<Rightarrow> revealedCards gs))"

definition handsAfter :: "Rejected + Store \<Rightarrow> CardObj list list" where
  "handsAfter r = (case r of Inl e \<Rightarrow> [] | Inr db \<Rightarrow> map cardsOf (players db))"

definition discardedAfter :: "Rejected + Store \<Rightarrow> CardObj list list" where
  "discardedAfter r = (case r of Inl e \<Rightarrow> [] | Inr db \<Rightarrow> map discardedCards (players db))"

text \<open>The store after a handler: a rejected call leaves it as it was.\<close>

definition storeAfter :: "Store \<Rightarrow> Rejected + Store \<Rightarrow> Store" where
  "storeAfter db r = (case r of Inl e \<Rightarrow> db | Inr db' \<Rightarrow> db')"

section \<open>Scoring\<close>

lemmas parseInt_eval = parseInt_def isWhiteSpace_def isDigitIn_def digitOf_def digitVal_def

lemma cardPoints_spec:
  "cvalue c \<in> set VALUES \<Longrightarrow> cardPoints c r = Some (spec_cardValue r c)"
  unfolding VALUES_def
  by (cases r) (auto simp add: cardPoints_def spec_cardValue_def spec_cardTable_def parseInt_eval)

lemma foldl_score:
  "\<forall>c \<in> set h. cvalue c \<in> set VALUES \<Longrightarrow>
   foldl (\<lambda>total crd. jsAdd total (cardPoints crd r)) (Some a) h =
   Some (a + sum_list (map (spec_cardValue r) h))"
  by (induction h arbitrary: a) (simp_all add: cardPoints_spec jsAdd_def add.assoc)

lemma calculateHandScore_wf:
  "\<forall>c \<in> set h. cvalue c \<in> set VALUES \<Longrightarrow> calculateHandScore h r = Some (spec_scoreHand h r)"
  by (simp add: calculateHandScore_def spec_scoreHand_def foldl_score)

lemma spec_cardValue_min_max:
  "spec_cardValue CMax c = spec_cardValue CMin c + (if cvalue c = ''A'' then 10 else 0)"
  by (simp add: spec_cardValue_def spec_cardTable_def)

lemma spec_scoreHand_min_max:
  "spec_scoreHand h CMax = spec_scoreHand h CMin + 10 * int (length (filter (\<lambda>c. cvalue c = ''A'') h))"
  by (induction h) (simp_all add: spec_scoreHand_def spec_cardValue_min_max)

text \<open>
  Claim C6. On a hand of cards with values from \<open>VALUES\<close>, \<open>calculateHandScore\<close> is the
  sum in which 2 to 10 count their face value, J, Q and K count 10 and the Ace counts 1
  under min and 11 under max; the empty hand scores 0; the hand A, K, 7 scores 18 under min
  and 28 under max.
\<close>

theorem calculateHandScore_sums_card_values:
  assumes "\<forall>c \<in> set hand0. cvalue c \<in> set VALUES"
  shows "calculateHandScore hand0 rule = Some (spec_scoreHand hand0 rule)
       \<and> calculateHandScore [] rule = Some 0
       \<and> calculateHandScore [mkCard ''A'' s1, mkCard ''K'' s2, mkCard ''7'' s3] CMin = Some 18
       \<and> calculateHandScore [mkCard ''A'' s1, mkCard ''K'' s2, mkCard ''7'' s3] CMax = Some 28"
proof -
  have ex: "\<forall>c \<in> set [mkCard ''A'' s1, mkCard ''K'' s2, mkCard ''7'' s3]. cvalue c \<in> set VALUES"
    by (simp add: mkCard_def VALUES_def)
  have "calculateHandScore [mkCard ''A'' s1, mkCard ''K'' s2, mkCard ''7'' s3] CMin = Some 18"
    unfolding calculateHandScore_wf[OF ex]
    by (simp add: spec_scoreHand_def spec_cardValue_def spec_cardTable_def mkCard_def)
  moreover have "calculateHandScore [mkCard ''A'' s1, mkCard ''K'' s2, mkCard ''7'' s3] CMax = Some 28"
    unfolding calculateHandScore_wf[OF ex]
    by (simp add: spec_scoreHand_def spec_cardValue_def spec_cardTable_def mkCard_def)
  moreover have "calculateHandScore [] rule = Some 0"
    by (simp add: calculateHandScore_def)
  ultimately show ?thesis using calculateHandScore_wf[OF assms, of rule] by simp
qed

theorem calculateHandScore_sums_card_values_witness:
  "calculateHandScore [mkCard ''10'' ''h'', mkCard ''Q'' ''s'', mkCard ''A'' ''c''] CMax = Some 31
   \<and> spec_scoreHand [mkCard ''10'' ''h'', mkCard ''Q'' ''s'', mkCard ''A'' ''c''] CMax = 31"
proof -
  have h: "\<forall>c \<in> set [mkCard ''10'' ''h'', mkCard ''Q'' ''s'', mkCard ''A'' ''c'']. cvalue c \<in> set VALUES"
    by (simp add: mkCard_def VALUES_def)
  have s: "spec_scoreHand [mkCard ''10'' ''h'', mkCard ''Q'' ''s'', mkCard ''A'' ''c''] CMax = 31"
    by (simp add: spec_scoreHand_def spec_cardValue_def spec_cardTable_def mkCard_def)
  show ?thesis using calculateHandScore_sums_card_values[OF h, of CMax] s by simp
qed

text \<open>
  Claim C7. On a hand of cards with values from \<open>VALUES\<close> the score under min is at most
  the score under max, the difference is ten for each Ace, and the two scores are equal when
  the hand holds no Ace.
\<close>

theorem calculateHandScore_min_le_max:
  assumes "\<forall>c \<in> set hand0. cvalue c \<in> set VALUES"
  shows "\<exists>lo hi. calculateHandScore hand0 CMin = Some lo
              \<and> calculateHandScore hand0 CMax = Some hi
              \<and> lo \<le> hi
              \<and> hi = lo + 10 * int (length (filter (\<lambda>c. cvalue c = ''A'') hand0))
              \<and> ((\<forall>c \<in> set hand0. cvalue c \<noteq> ''A'') \<longrightarrow> lo = hi)"
proof -
  have noAce: "(\<forall>c \<in> set hand0. cvalue c \<noteq> ''A'') \<Longrightarrow> filter (\<lambda>c. cvalue c = ''A'') hand0 = []"
    by (simp add: filter_empty_conv)
  show ?thesis
    using calculateHandScore_wf[OF assms] spec_scoreHand_min_max[of hand0] noAce
    by auto
qed

theorem calculateHandScore_min_le_max_witness:
  "calculateHandScore [mkCard ''9'' ''h'', mkCard ''J'' ''s''] CMin = Some 19
   \<and> calculateHandScore [mkCard ''9'' ''h'', mkCard ''J'' ''s''] CMax = Some 19
   \<and> calculateHandScore [mkCard ''A'' ''h'', mkCard ''A'' ''s'', mkCard ''2'' ''s''] CMin = Some 4
   \<and> calculateHandScore [mkCard ''A'' ''h'', mkCard ''A'' ''s'', mkCard ''2'' ''s''] CMax = Some 24"
proof -
  have h1: "\<forall>c \<in> set [mkCard ''9'' ''h'', mkCard ''J'' ''s'']. cvalue c \<in> set VALUES"
    by (simp add: mkCard_def VALUES_def)
  have h2: "\<forall>c \<in> set [mkCard ''A'' ''h'', mkCard ''A'' ''s'', mkCard ''2'' ''s'']. cvalue c \<in> set VALUES"
    by (simp add: mkCard_def VALUES_def)
  have e1: "calculateHandScore [mkCard ''9'' ''h'', mkCard ''J'' ''s''] CMin = Some 19"
    by (simp add: calculateHandScore_def cardPoints_def jsAdd_def mkCard_def parseInt_eval)
  have e2: "calculateHandScore [mkCard ''A'' ''h'', mkCard ''A'' ''s'', mkCard ''2'' ''s''] CMin = Some 4"
    by (simp add: calculateHandScore_def cardPoints_def jsAdd_def mkCard_def parseInt_eval)
  show ?thesis using calculateHandScore_min_le_max[OF h1] calculateHandScore_min_le_max[OF h2] e1 e2 by (simp add: mkCard_def)
qed

section \<open>Silent discard\<close>

lemma findIndex_first:
  "i < length xs \<Longrightarrow> P (xs ! i) \<Longrightarrow> (\<forall>j < i. \<not> P (xs ! j)) \<Longrightarrow> findIndex P xs = int i"
proof (induction xs arbitrary: i)
  case Nil
  then show ?case by simp
next
  case (Cons x xs)
  show ?case
  proof (cases i)
    case 0
    with Cons.prems show ?thesis by simp
  next
    case (Suc k)
    with Cons.prems have "\<not> P x" by auto
    moreover have "\<forall>j < k. \<not> P (xs ! j)"
    proof (intro allI impI)
      fix j assume "j < k"
      then have "Suc j < i" using Suc by simp
      with Cons.prems(3) have "\<not> P ((x # xs) ! Suc j)" by blast
      then show "\<not> P (xs ! j)" by simp
    qed
    then have "findIndex P xs = int k"
      using Cons.IH[of k] Cons.prems Suc by auto
    ultimately show ?thesis using Suc by simp
  qed
qed

lemma findIndex_found:
  "\<exists>x \<in> set xs. P x \<Longrightarrow>
   \<exists>i < length xs. findIndex P xs = int i \<and> P (xs ! i) \<and> (\<forall>j < i. \<not> P (xs ! j))"
proof (induction xs)
  case Nil
  then show ?case by simp
next
  case (Cons x xs)
  show ?case
  proof (cases "P x")
    case True
    then show ?thesis by (intro exI[of _ 0]) simp
  next
    case False
    with Cons.prems have "\<exists>x \<in> set xs. P x" by auto
    from Cons.IH[OF this] obtain i where i: "i < length xs" "findIndex P xs = int i" "P (xs ! i)"
      "\<forall>j < i. \<not> P (xs ! j)" by blast
    have "\<forall>j < Suc i. \<not> P ((x # xs) ! j)"
      using False i(4) by (auto simp: less_Suc_eq_0_disj)
    with i False show ?thesis by (intro exI[of _ "Suc i"]) simp
  qed
qed

lemma findIndex_none: "(\<forall>x \<in> set xs. \<not> P x) \<Longrightarrow> findIndex P xs = - 1"
  by (induction xs) simp_all

lemma uniqueDiscarded_distinct:
  assumes "distinct (map cardKey xs)"
  shows "uniqueDiscarded xs = xs"
proof -
  have "\<forall>e \<in> set (enumerate 0 xs).
          (\<lambda>(index, crd). int index = findIndex (\<lambda>c. cvalue c = cvalue crd \<and> suit c = suit crd) xs) e"
  proof
    fix e assume e: "e \<in> set (enumerate 0 xs)"
    obtain i x where ix: "e = (i, x)" by (cases e)
    from e ix have i: "i < length xs" "x = xs ! i" by (auto simp: in_set_enumerate_eq)
    have "\<forall>j < i. \<not> (cvalue (xs ! j) = cvalue x \<and> suit (xs ! j) = suit x)"
    proof (intro allI impI notI)
      fix j assume j: "j < i" and eq: "cvalue (xs ! j) = cvalue x \<and> suit (xs ! j) = suit x"
      then have "map cardKey xs ! j = map cardKey xs ! i"
        using i by (simp add: cardKey_def)
      with assms i j show False by (simp add: distinct_conv_nth)
    qed
    then have "findIndex (\<lambda>c. cvalue c = cvalue x \<and> suit c = suit x) xs = int i"
      using findIndex_first[of i xs "\<lambda>c. cvalue c = cvalue x \<and> suit c = suit x"] i by simp
    with ix show "(\<lambda>(index, crd). int index = findIndex (\<lambda>c. cvalue c = cvalue crd \<and> suit c = suit crd) xs) e"
      by simp
  qed
  then have "filter (\<lambda>(index, crd). int index = findIndex (\<lambda>c. cvalue c = cvalue crd \<and> suit c = suit crd) xs)
               (enumerate 0 xs) = enumerate 0 xs"
    by (simp only: filter_True)
  then show ?thesis by (simp add: uniqueDiscarded_def)
qed

lemma uniqueDiscarded_subset: "set (uniqueDiscarded xs) \<subseteq> set xs"
  by (auto simp: uniqueDiscarded_def in_set_enumerate_eq)

lemma uniqueDiscarded_keys: "cardKey ` set (uniqueDiscarded xs) = cardKey ` set xs"
proof
  show "cardKey ` set (uniqueDiscarded xs) \<subseteq> cardKey ` set xs"
    using uniqueDiscarded_subset by blast
  show "cardKey ` set xs \<subseteq> cardKey ` set (uniqueDiscarded xs)"
  proof
    fix k assume "k \<in> cardKey ` set xs"
    then obtain x where x: "x \<in> set xs" "k = cardKey x" by blast
    let ?P = "\<lambda>c. cvalue c = cvalue x \<and> suit c = suit x"
    have "\<exists>y \<in> set xs. ?P y" using x by blast
    from findIndex_found[OF this] obtain i where i: "i < length xs" "findIndex ?P xs = int i" "?P (xs ! i)"
      by blast
    have same: "(\<lambda>c. cvalue c = cvalue (xs ! i) \<and> suit c = suit (xs ! i)) = ?P"
      using i(3) by auto
    have "(i, xs ! i) \<in> set (enumerate 0 xs)" using i by (simp add: in_set_enumerate_eq)
    moreover have "int i = findIndex (\<lambda>c. cvalue c = cvalue (xs ! i) \<and> suit c = suit (xs ! i)) xs"
      by (subst same) (simp only: i(2))
    ultimately have "(i, xs ! i) \<in> set (filter (\<lambda>(index, crd).
        int index = findIndex (\<lambda>c. cvalue c = cvalue crd \<and> suit c = suit crd) xs) (enumerate 0 xs))"
      by simp
    then have "snd (i, xs ! i) \<in> set (uniqueDiscarded xs)"
      unfolding uniqueDiscarded_def set_map by (rule imageI)
    then have "xs ! i \<in> set (uniqueDiscarded xs)" by simp
    moreover have "cardKey (xs ! i) = k" using i(3) x by (simp add: cardKey_def)
    ultimately show "k \<in> cardKey ` set (uniqueDiscarded xs)" by blast
  qed
qed

lemma discardPlayer_hand:
  "cardsOf (discardPlayer c p) = filter (\<lambda>crd. cvalue crd \<noteq> cvalue c) (cardsOf p)"
  by (auto simp: discardPlayer_def cardsOf_def Let_def filter_empty_conv split: option.splits)

lemma discardPlayer_other_fields:
  "(discardPlayer c p)\<lparr>hand := hand p, discardedCards := discardedCards p\<rparr> = p"
  by (auto simp: discardPlayer_def Let_def split: option.splits)

lemma discardPlayer_discarded_keys:
  "cardKey ` set (discardedCards (discardPlayer c p)) =
   cardKey ` (set (discardedCards p) \<union> set (filter (\<lambda>crd. cvalue crd = cvalue c) (cardsOf p)))"
  by (auto simp: discardPlayer_def cardsOf_def Let_def uniqueDiscarded_keys filter_empty_conv
           split: option.splits)

lemma discardPlayer_discarded_append:
  assumes "distinct (map cardKey (discardedCards p @ filter (\<lambda>crd. cvalue crd = cvalue c) (cardsOf p)))"
  shows "discardedCards (discardPlayer c p) =
         discardedCards p @ filter (\<lambda>crd. cvalue crd = cvalue c) (cardsOf p)"
  using assms uniqueDiscarded_distinct[OF assms]
  by (auto simp: discardPlayer_def cardsOf_def Let_def filter_empty_conv split: option.splits)


text \<open>
  Claim C8. Where the table has a last revealed card, \<open>applySilentDiscard\<close> leaves in
  every hand exactly the cards of another value, so every match goes and not the first
  only; the cards removed join the player's \<open>discardedCards\<close>: as cards told by value and
  suit always, and as the list extended at its end when no card occurs twice; nothing else
  of a player changes, and the table, with its \<open>revealedCards\<close>, is left as it was. The
  hand 5, 5, 9 with a 5 revealed becomes 9 (the witness).
\<close>

theorem applySilentDiscard_removes_every_match:
  assumes "gameState db = Some gs" and "revealedCards gs \<noteq> []" and "i < length (players db)"
  shows "gameState (applySilentDiscard db) = gameState db
       \<and> history (applySilentDiscard db) = history db
       \<and> length (players (applySilentDiscard db)) = length (players db)
       \<and> cardsOf (players (applySilentDiscard db) ! i) =
           filter (\<lambda>crd. cvalue crd \<noteq> cvalue (last (revealedCards gs))) (cardsOf (players db ! i))
       \<and> cardKey ` set (discardedCards (players (applySilentDiscard db) ! i)) =
           cardKey ` (set (discardedCards (players db ! i)) \<union>
                      set (filter (\<lambda>crd. cvalue crd = cvalue (last (revealedCards gs)))
                             (cardsOf (players db ! i))))
       \<and> (distinct (map cardKey (discardedCards (players db ! i) @
              filter (\<lambda>crd. cvalue crd = cvalue (last (revealedCards gs))) (cardsOf (players db ! i))))
            \<longrightarrow> discardedCards (players (applySilentDiscard db) ! i) =
                discardedCards (players db ! i) @
                filter (\<lambda>crd. cvalue crd = cvalue (last (revealedCards gs))) (cardsOf (players db ! i)))
       \<and> (players (applySilentDiscard db) ! i)
             \<lparr>hand := hand (players db ! i), discardedCards := discardedCards (players db ! i)\<rparr>
           = players db ! i"
proof -
  let ?c = "last (revealedCards gs)"
  have ps: "players (applySilentDiscard db) = map (discardPlayer ?c) (players db)"
    using assms(1,2) by (simp add: applySilentDiscard_def)
  have nth: "players (applySilentDiscard db) ! i = discardPlayer ?c (players db ! i)"
    using assms(3) by (simp add: ps)
  have g: "gameState (applySilentDiscard db) = gameState db"
    using assms(1,2) by (simp add: applySilentDiscard_def)
  have h: "history (applySilentDiscard db) = history db"
    using assms(1,2) by (simp add: applySilentDiscard_def)
  have l: "length (players (applySilentDiscard db)) = length (players db)"
    by (simp add: ps)
  show ?thesis
    unfolding nth
    using g h l discardPlayer_hand[where c = ?c and p = "players db ! i"]
      discardPlayer_discarded_keys[where c = ?c and p = "players db ! i"]
      discardPlayer_discarded_append[where c = ?c and p = "players db ! i"]
      discardPlayer_other_fields[where c = ?c and p = "players db ! i"]
    by (intro conjI impI) assumption+
qed

theorem applySilentDiscard_removes_every_match_witness:
  "gameState discardStore = Some (mkTable 4 [mkCard ''K'' ''d'', mkCard ''5'' ''c''] ''p1'')
   \<and> revealedCards (mkTable 4 [mkCard ''K'' ''d'', mkCard ''5'' ''c''] ''p1'') \<noteq> []
   \<and> (0::nat) < length (players discardStore)
   \<and> cardsOf (players discardStore ! 0) = [mkCard ''5'' ''h'', mkCard ''5'' ''s'', mkCard ''9'' ''d'']
   \<and> cardsOf (players (applySilentDiscard discardStore) ! 0) = [mkCard ''9'' ''d'']
   \<and> discardedCards (players (applySilentDiscard discardStore) ! 0) =
       [mkCard ''K'' ''h'', mkCard ''5'' ''h'', mkCard ''5'' ''s'']
   \<and> gameState (applySilentDiscard discardStore) = gameState discardStore"
proof -
  have a: "gameState discardStore = Some (mkTable 4 [mkCard ''K'' ''d'', mkCard ''5'' ''c''] ''p1'')"
    by (simp add: discardStore_def)
  have b: "revealedCards (mkTable 4 [mkCard ''K'' ''d'', mkCard ''5'' ''c''] ''p1'') \<noteq> []"
    by (simp add: mkTable_def)
  have c: "(0::nat) < length (players discardStore)"
    by (simp add: discardStore_def)
  show ?thesis
    using applySilentDiscard_removes_every_match[OF a b c] a b c
    by (simp add: discardStore_def mkTable_def mkPlayer_def mkCard_def cardsOf_def cardKey_def)
qed

section \<open>Declarations\<close>

lemma getFilteredHand_survivingCards:
  "getFilteredHand (hand p) revealed = survivingCards p revealed"
  by (auto simp: getFilteredHand_def survivingCards_def cardsOf_def Let_def split: option.splits)

lemma lookupPlayer_pid: "lookupPlayer ps i = Some p \<Longrightarrow> pid p = i \<and> p \<in> set ps"
  unfolding lookupPlayer_def by (induction ps) (auto split: if_splits)

lemma lookupPlayer_map_patch:
  assumes "lookupPlayer ps i = Some p" and "\<And>q. pid (f q) = pid q" and "\<And>q. pid (g q) = pid q"
  shows "lookupPlayer (map (\<lambda>q. if pid q = i then f q else g q) ps) i = Some (f p)"
  using assms(1) unfolding lookupPlayer_def
  by (induction ps) (auto simp: assms(2,3) split: if_splits)

lemma lookupPlayer_distinct:
  "distinct (map pid ps) \<Longrightarrow> p \<in> set ps \<Longrightarrow> lookupPlayer ps (pid p) = Some p"
  unfolding lookupPlayer_def by (induction ps) (auto simp: image_iff)

lemma lookupPlayer_map_pid:
  assumes "\<And>q. pid (F q) = pid q"
  shows "lookupPlayer (map F ps) i = map_option F (lookupPlayer ps i)"
  unfolding lookupPlayer_def by (induction ps) (auto simp: assms)

lemma submitFinal_cases:
  assumes "lid \<noteq> []" and "lookupPlayer (players db) lid = Some cu"
    and "gameState db = Some gs" and "inp \<noteq> []"
  shows "(case submitFinal (Some lid) inp ch db of
            Inr db' \<Rightarrow>
              (\<exists>d. parseInt inp = Some d
                 \<and> calculateHandScore (survivingCards cu (revealedCards gs)) ch = Some d
                 \<and> lookupPlayer (players db') lid = Some (cu\<lparr>choice := Some ch, finalScore := Some d\<rparr>)
                 \<and> length (players db') = length (players db)
                 \<and> (\<forall>i < length (players db). pid (players db ! i) \<noteq> lid
                        \<longrightarrow> players db' ! i = players db ! i)
                 \<and> gameState db' = gameState db \<and> history db' = history db)
          | Inl e \<Rightarrow>
              (case parseInt inp of
                 None \<Rightarrow> e = PunteggioNonValido
               | Some d \<Rightarrow>
                   e = PunteggioErrato
                   \<and> calculateHandScore (survivingCards cu (revealedCards gs)) ch \<noteq> Some d))"
proof (cases "parseInt inp")
  case None
  then show ?thesis using assms by (simp add: submitFinal_def)
next
  case (Some d)
  have pc: "pid cu = lid" using lookupPlayer_pid[OF assms(2)] by simp
  show ?thesis
  proof (cases "calculateHandScore (survivingCards cu (revealedCards gs)) ch = Some d")
    case False
    then show ?thesis using assms Some
      by (auto simp add: submitFinal_def getFilteredHand_survivingCards)
  next
    case True
    have res: "submitFinal (Some lid) inp ch db =
                 Inr (db\<lparr>players := map (\<lambda>p. if pid p = lid
                       then p\<lparr>choice := Some ch, finalScore := Some d\<rparr> else id p) (players db)\<rparr>)"
      using assms Some True pc by (simp add: submitFinal_def getFilteredHand_survivingCards)
    have lk: "lookupPlayer (map (\<lambda>p. if pid p = lid
                 then p\<lparr>choice := Some ch, finalScore := Some d\<rparr> else id p) (players db)) lid
              = Some (cu\<lparr>choice := Some ch, finalScore := Some d\<rparr>)"
      by (rule lookupPlayer_map_patch[OF assms(2)]) simp_all
    show ?thesis unfolding res using Some True lk by simp
  qed
qed

text \<open>
  Claim C9. For a seated caller, a table and a non-empty input, \<open>submitFinal\<close> writes the
  declaration exactly when the input parses to the score that \<open>calculateHandScore\<close> gives
  for the caller's own surviving hand under the chosen rule: it then sets the caller's
  \<open>choice\<close> and \<open>finalScore\<close> and nothing else. An input that does not parse, or parses to
  any other number, is rejected, and a rejected call writes nothing.
\<close>

theorem submitFinal_accepts_iff_exact:
  assumes "lid \<noteq> []" and "lookupPlayer (players db) lid = Some cu"
    and "gameState db = Some gs" and "inp \<noteq> []"
  shows "(case submitFinal (Some lid) inp ch db of
            Inr db' \<Rightarrow>
              (\<exists>d. parseInt inp = Some d
                 \<and> calculateHandScore (survivingCards cu (revealedCards gs)) ch = Some d
                 \<and> lookupPlayer (players db') lid = Some (cu\<lparr>choice := Some ch, finalScore := Some d\<rparr>)
                 \<and> length (players db') = length (players db)
                 \<and> (\<forall>i < length (players db). pid (players db ! i) \<noteq> lid
                        \<longrightarrow> players db' ! i = players db ! i)
                 \<and> gameState db' = gameState db \<and> history db' = history db)
          | Inl e \<Rightarrow>
              (case parseInt inp of
                 None \<Rightarrow> e = PunteggioNonValido
               | Some d \<Rightarrow>
                   e = PunteggioErrato
                   \<and> calculateHandScore (survivingCards cu (revealedCards gs)) ch \<noteq> Some d))"
  using assms by (rule submitFinal_cases)

theorem submitFinal_accepts_iff_exact_witness:
  "submitFinal (Some ''p1'') ''10'' CMin declareStore =
     Inr (declareStore\<lparr>players :=
       [(players declareStore ! 0)\<lparr>choice := Some CMin, finalScore := Some 10\<rparr>,
        players declareStore ! 1]\<rparr>)
   \<and> submitFinal (Some ''p1'') ''11'' CMin declareStore = Inl PunteggioErrato
   \<and> submitFinal (Some ''p1'') ''9'' CMin declareStore = Inl PunteggioErrato
   \<and> submitFinal (Some ''p1'') ''x'' CMin declareStore = Inl PunteggioNonValido"
proof -
  have a: "''p1'' \<noteq> []" by simp
  have b: "lookupPlayer (players declareStore) ''p1'' = Some (players declareStore ! 0)"
    by (simp add: declareStore_def lookupPlayer_def mkPlayer_def)
  have c: "gameState declareStore =
           Some ((mkTable 2 [mkCard ''K'' ''d'', mkCard ''5'' ''c''] [])\<lparr>phase := Final\<rparr>)"
    by (simp add: declareStore_def)
  have d: "''10'' \<noteq> []" "''11'' \<noteq> []" "''9'' \<noteq> []" "''x'' \<noteq> []" by simp_all
  have s: "calculateHandScore (survivingCards (players declareStore ! 0)
             (revealedCards ((mkTable 2 [mkCard ''K'' ''d'', mkCard ''5'' ''c''] [])\<lparr>phase := Final\<rparr>))) CMin = Some 10"
    by (simp add: declareStore_def survivingCards_def cardsOf_def mkPlayer_def mkTable_def mkCard_def
                  calculateHandScore_def cardPoints_def jsAdd_def parseInt_eval)
  have p: "parseInt ''10'' = Some 10" "parseInt ''11'' = Some 11" "parseInt ''9'' = Some 9"
          "parseInt ''x'' = None"
    by (simp_all add: parseInt_eval)
  have e1: "submitFinal (Some ''p1'') ''10'' CMin declareStore =
     Inr (declareStore\<lparr>players :=
       [(players declareStore ! 0)\<lparr>choice := Some CMin, finalScore := Some 10\<rparr>,
        players declareStore ! 1]\<rparr>)"
    by (simp add: submitFinal_def declareStore_def lookupPlayer_def mkPlayer_def mkTable_def mkCard_def
          getFilteredHand_def calculateHandScore_def cardPoints_def jsAdd_def p)
  have e2: "submitFinal (Some ''p1'') ''11'' CMin declareStore = Inl PunteggioErrato"
    using submitFinal_accepts_iff_exact[OF a b c d(2), of CMin] s p
    by (auto split: sum.splits)
  have e3: "submitFinal (Some ''p1'') ''9'' CMin declareStore = Inl PunteggioErrato"
    using submitFinal_accepts_iff_exact[OF a b c d(3), of CMin] s p
    by (auto split: sum.splits)
  have e4: "submitFinal (Some ''p1'') ''x'' CMin declareStore = Inl PunteggioNonValido"
    using submitFinal_accepts_iff_exact[OF a b c d(4), of CMin] s p
    by (auto split: sum.splits)
  show ?thesis using e1 e2 e3 e4 by simp
qed

lemma botsWithoutChoice_subset: "set (botsWithoutChoice ps) \<subseteq> set ps"
  by (auto simp: botsWithoutChoice_def Let_def)

lemma botsWithoutChoice_distinct:
  assumes "distinct (map pid ps)"
  shows "distinct (map pid (botsWithoutChoice ps))"
proof -
  have "distinct (map pid (sort_key position (filter (\<lambda>p. folded p = Some False) ps)))"
    using assms by (simp add: distinct_map inj_on_def)
  then show ?thesis
    by (simp add: botsWithoutChoice_def Let_def distinct_map_filter)
qed

lemma map_of_rev_distinct:
  assumes "distinct (map fst xs)" and "(k, v) \<in> set xs"
  shows "map_of (rev xs) k = Some v"
proof -
  have "distinct (map fst (rev xs))" using assms(1) by (simp add: rev_map[symmetric])
  moreover have "(k, v) \<in> set (rev xs)" using assms(2) by simp
  ultimately show ?thesis by (rule map_of_is_SomeI)
qed

lemma botDeclarations_fst: "map fst (botDeclarations rnd gs ps) = map pid (botsWithoutChoice ps)"
proof -
  have "map fst (botDeclarations rnd gs ps) = map (pid \<circ> snd) (enumerate 0 (botsWithoutChoice ps))"
    by (simp add: botDeclarations_def Let_def split_def comp_def)
  also have "\<dots> = map pid (map snd (enumerate 0 (botsWithoutChoice ps)))"
    by (simp only: map_map)
  finally show ?thesis by (simp only: map_snd_enumerate)
qed

lemma botDeclarations_nth:
  assumes "i < length (botsWithoutChoice ps)"
  shows "botDeclarations rnd gs ps ! i =
         (pid (botsWithoutChoice ps ! i), botChoice (rnd i),
          calculateHandScore (survivingCards (botsWithoutChoice ps ! i) (revealedCards gs))
            (botChoice (rnd i)))"
  using assms
  by (simp add: botDeclarations_def Let_def nth_enumerate_eq getFilteredHand_survivingCards)

lemma botAutoDeclare_bot:
  assumes gs: "gameState db = Some gs" and d: "distinct (map pid (players db))"
    and r: "botAutoDeclare adm rnd db = Inr db'" and i: "i < length (botsWithoutChoice (players db))"
  shows "lookupPlayer (players db') (pid (botsWithoutChoice (players db) ! i)) =
         Some ((botsWithoutChoice (players db) ! i)
                 \<lparr>choice := Some (botChoice (rnd i)),
                  finalScore := calculateHandScore
                     (survivingCards (botsWithoutChoice (players db) ! i) (revealedCards gs))
                     (botChoice (rnd i))\<rparr>)"
proof -
  let ?bots = "botsWithoutChoice (players db)"
  let ?us = "botDeclarations rnd gs (players db)"
  let ?F = "\<lambda>p. (case map_of (rev ?us) (pid p) of None \<Rightarrow> p
              | Some (choice0, finalScore0) \<Rightarrow> p\<lparr>choice := Some choice0, finalScore := finalScore0\<rparr>)"
  let ?b = "?bots ! i"
  have db': "players db' = map ?F (players db)"
    using r gs by (auto simp: botAutoDeclare_def Let_def split: if_splits)
  have Fpid: "\<And>q. pid (?F q) = pid q" by (simp split: option.splits prod.splits)
  have bin: "?b \<in> set (players db)" using i botsWithoutChoice_subset nth_mem by blast
  have len: "length ?us = length ?bots" by (simp add: botDeclarations_def)
  have "?us ! i \<in> set ?us" using i len by simp
  then have mem: "(pid ?b, botChoice (rnd i),
           calculateHandScore (survivingCards ?b (revealedCards gs)) (botChoice (rnd i))) \<in> set ?us"
    using botDeclarations_nth[OF i, of rnd gs] by simp
  have "distinct (map fst ?us)"
    by (simp only: botDeclarations_fst botsWithoutChoice_distinct[OF d])
  from map_of_rev_distinct[OF this mem]
  have F: "?F ?b = ?b\<lparr>choice := Some (botChoice (rnd i)),
                 finalScore := calculateHandScore (survivingCards ?b (revealedCards gs)) (botChoice (rnd i))\<rparr>"
    by simp
  have "lookupPlayer (players db') (pid ?b) = map_option ?F (lookupPlayer (players db) (pid ?b))"
    unfolding db' by (rule lookupPlayer_map_pid) (rule Fpid)
  also have "\<dots> = Some (?F ?b)" using lookupPlayer_distinct[OF d bin] by simp
  finally show ?thesis using F by simp
qed

lemma survivingCards_ignores_revealed:
  assumes "cvalue c \<in> cvalue ` set revealed"
  shows "survivingCards (p\<lparr>hand := Some (xs @ c # ys)\<rparr>) revealed =
         survivingCards (p\<lparr>hand := Some (xs @ ys)\<rparr>) revealed"
  using assms by (simp add: survivingCards_def cardsOf_def)

text \<open>
  Claim C10. The score that \<open>submitFinal\<close> validates and the score that the admin client
  declares for a bot are both the score of the surviving cards, the stored hand filtered
  against all revealed values: no surviving card has a revealed value, and a card of a
  revealed value that is still in the stored hand changes neither score.
\<close>

theorem declared_scores_ignore_revealed_values:
  assumes "gameState db = Some gs" and "distinct (map pid (players db))"
  shows "(lid \<noteq> [] \<and> lookupPlayer (players db) lid = Some cu
            \<and> submitFinal (Some lid) inp ch db = Inr dbA
          \<longrightarrow> (\<exists>q. lookupPlayer (players dbA) lid = Some q \<and> choice q = Some ch
                 \<and> finalScore q = calculateHandScore (survivingCards cu (revealedCards gs)) ch))
       \<and> (botAutoDeclare adm rnd db = Inr dbB \<and> i < length (botsWithoutChoice (players db))
          \<longrightarrow> (\<exists>q. lookupPlayer (players dbB) (pid (botsWithoutChoice (players db) ! i)) = Some q
                 \<and> choice q = Some (botChoice (rnd i))
                 \<and> finalScore q =
                     calculateHandScore
                       (survivingCards (botsWithoutChoice (players db) ! i) (revealedCards gs))
                       (botChoice (rnd i))))
       \<and> (\<forall>c \<in> set (survivingCards p (revealedCards gs)). cvalue c \<notin> cvalue ` set (revealedCards gs))
       \<and> (cvalue c \<in> cvalue ` set (revealedCards gs)
          \<longrightarrow> calculateHandScore (survivingCards (p\<lparr>hand := Some (xs @ c # ys)\<rparr>) (revealedCards gs)) ch =
              calculateHandScore (survivingCards (p\<lparr>hand := Some (xs @ ys)\<rparr>) (revealedCards gs)) ch)"
proof (intro conjI impI)
  assume a: "lid \<noteq> [] \<and> lookupPlayer (players db) lid = Some cu
            \<and> submitFinal (Some lid) inp ch db = Inr dbA"
  then have ne: "inp \<noteq> []" using assms(1) by (auto simp: submitFinal_def split: if_splits)
  from a have l: "lid \<noteq> []" and k: "lookupPlayer (players db) lid = Some cu"
    and r: "submitFinal (Some lid) inp ch db = Inr dbA" by simp_all
  from submitFinal_cases[OF l k assms(1) ne, of ch] r
  obtain d where "calculateHandScore (survivingCards cu (revealedCards gs)) ch = Some d"
    "lookupPlayer (players dbA) lid = Some (cu\<lparr>choice := Some ch, finalScore := Some d\<rparr>)"
    by auto
  then show "\<exists>q. lookupPlayer (players dbA) lid = Some q \<and> choice q = Some ch
                 \<and> finalScore q = calculateHandScore (survivingCards cu (revealedCards gs)) ch"
    by simp
next
  assume b: "botAutoDeclare adm rnd db = Inr dbB \<and> i < length (botsWithoutChoice (players db))"
  then show "\<exists>q. lookupPlayer (players dbB) (pid (botsWithoutChoice (players db) ! i)) = Some q
                 \<and> choice q = Some (botChoice (rnd i))
                 \<and> finalScore q =
                     calculateHandScore
                       (survivingCards (botsWithoutChoice (players db) ! i) (revealedCards gs))
                       (botChoice (rnd i))"
    using botAutoDeclare_bot[OF assms(1,2), of adm rnd dbB i] by simp
next
  show "\<forall>c \<in> set (survivingCards p (revealedCards gs)). cvalue c \<notin> cvalue ` set (revealedCards gs)"
    by (simp add: survivingCards_def)
next
  assume "cvalue c \<in> cvalue ` set (revealedCards gs)"
  then show "calculateHandScore (survivingCards (p\<lparr>hand := Some (xs @ c # ys)\<rparr>) (revealedCards gs)) ch =
              calculateHandScore (survivingCards (p\<lparr>hand := Some (xs @ ys)\<rparr>) (revealedCards gs)) ch"
    by (simp only: survivingCards_ignores_revealed)
qed


theorem declared_scores_ignore_revealed_values_witness:
  "gameState declareStore =
     Some ((mkTable 2 [mkCard ''K'' ''d'', mkCard ''5'' ''c''] [])\<lparr>phase := Final\<rparr>)
   \<and> distinct (map pid (players declareStore))
   \<and> cardsOf (players declareStore ! 0) = [mkCard ''A'' ''h'', mkCard ''5'' ''s'', mkCard ''9'' ''d'']
   \<and> (\<exists>q. lookupPlayer (players (declareStore\<lparr>players :=
              [(players declareStore ! 0)\<lparr>choice := Some CMin, finalScore := Some 10\<rparr>,
               players declareStore ! 1]\<rparr>)) ''p1'' = Some q
          \<and> choice q = Some CMin \<and> finalScore q = Some 10)
   \<and> botsWithoutChoice (players declareStore) = [players declareStore ! 1]
   \<and> cardsOf (players declareStore ! 1) = [mkCard ''K'' ''h'', mkCard ''3'' ''s'']
   \<and> (\<exists>dbB q. botAutoDeclare True (\<lambda>_. 0) declareStore = Inr dbB
          \<and> lookupPlayer (players dbB) ''bot'' = Some q
          \<and> choice q = Some CMin \<and> finalScore q = Some 3)"
proof -
  let ?gs = "(mkTable 2 [mkCard ''K'' ''d'', mkCard ''5'' ''c''] [])\<lparr>phase := Final\<rparr>"
  let ?dbA = "declareStore\<lparr>players :=
              [(players declareStore ! 0)\<lparr>choice := Some CMin, finalScore := Some 10\<rparr>,
               players declareStore ! 1]\<rparr>"
  have a: "gameState declareStore = Some ?gs" by (simp add: declareStore_def)
  have b: "distinct (map pid (players declareStore))"
    by (simp add: declareStore_def mkPlayer_def)
  have c0: "cardsOf (players declareStore ! 0) = [mkCard ''A'' ''h'', mkCard ''5'' ''s'', mkCard ''9'' ''d'']"
    and c1: "cardsOf (players declareStore ! 1) = [mkCard ''K'' ''h'', mkCard ''3'' ''s'']"
    by (simp_all add: declareStore_def mkPlayer_def cardsOf_def)
  have lk: "lookupPlayer (players declareStore) ''p1'' = Some (players declareStore ! 0)"
    by (simp add: declareStore_def lookupPlayer_def mkPlayer_def)
  have p: "parseInt ''10'' = Some 10" "parseInt ''9'' = Some 9" by (simp_all add: parseInt_eval)
  have sA: "submitFinal (Some ''p1'') ''10'' CMin declareStore = Inr ?dbA"
    by (simp add: submitFinal_def declareStore_def lookupPlayer_def mkPlayer_def mkTable_def mkCard_def
          getFilteredHand_def calculateHandScore_def cardPoints_def jsAdd_def p)
  have s0: "calculateHandScore (survivingCards (players declareStore ! 0) (revealedCards ?gs)) CMin = Some 10"
    by (simp add: declareStore_def survivingCards_def cardsOf_def mkPlayer_def mkTable_def mkCard_def
                  calculateHandScore_def cardPoints_def jsAdd_def parseInt_eval)
  have bots: "botsWithoutChoice (players declareStore) = [players declareStore ! 1]"
    by (simp add: botsWithoutChoice_def declareStore_def mkPlayer_def)
  have s1: "calculateHandScore (survivingCards (players declareStore ! 1) (revealedCards ?gs)) CMin = Some 3"
    by (simp add: declareStore_def survivingCards_def cardsOf_def mkPlayer_def mkTable_def mkCard_def
                  calculateHandScore_def cardPoints_def jsAdd_def parseInt_eval)
  have bc: "botChoice 0 = CMin" by (simp add: botChoice_def)
  have bd: "botDeclarations (\<lambda>_. 0) ?gs (players declareStore) = [(''bot'', CMin, Some 3)]"
    using s1 by (simp add: botDeclarations_def bots bc getFilteredHand_survivingCards)
       (simp add: declareStore_def mkPlayer_def)
  have "filter (\<lambda>p. folded p = Some False) (players declareStore) \<noteq> []"
    by (simp add: declareStore_def mkPlayer_def)
  then obtain dbB where sB: "botAutoDeclare True (\<lambda>_. 0) declareStore = Inr dbB"
    using a bots bd by (simp add: botAutoDeclare_def mkTable_def)
  have pb: "pid (players declareStore ! 1) = ''bot''" by (simp add: declareStore_def mkPlayer_def)
  have A: "\<exists>q. lookupPlayer (players ?dbA) ''p1'' = Some q \<and> choice q = Some CMin \<and> finalScore q = Some 10"
    using declared_scores_ignore_revealed_values[OF a b, of "''p1''" "players declareStore ! 0" "''10''" CMin ?dbA]
      lk sA s0 by simp
  have B: "\<exists>q. lookupPlayer (players dbB) ''bot'' = Some q \<and> choice q = Some CMin \<and> finalScore q = Some 3"
    using declared_scores_ignore_revealed_values[OF a b, of _ _ _ _ _ True "\<lambda>_. 0" dbB 0]
      sB bots s1 bc pb by simp
  show ?thesis using a b c0 c1 A B bots sB by blast
qed

section \<open>Betting\<close>

lemma isCents_iff: "isCents x \<longleftrightarrow> (\<exists>n::int. x = of_int n / 100)"
proof
  assume "isCents x"
  then have e: "of_int \<lfloor>x * 100\<rfloor> = x * 100" by (simp only: isCents_def)
  have "x = (x * 100) / 100" by simp
  then have "x = of_int \<lfloor>x * 100\<rfloor> / 100" by (simp only: e)
  then show "\<exists>n::int. x = of_int n / 100" by blast
next
  assume "\<exists>n::int. x = of_int n / 100"
  then obtain n :: int where "x = of_int n / 100" by blast
  then have "x * 100 = of_int n" by simp
  then have "of_int \<lfloor>x * 100\<rfloor> = x * 100" by (simp only: floor_of_int)
  then show "isCents x" by (simp only: isCents_def)
qed

lemma toFixed2_cents: "isCents x \<Longrightarrow> toFixed2 x = x"
  unfolding isCents_def toFixed2_def by auto

lemma isCents_toFixed2: "isCents (toFixed2 x)"
  unfolding isCents_iff toFixed2_def
  by (cases "x < 0") (auto intro: exI[of _ "- \<lfloor>- x * 100 + 1 / 2\<rfloor>"])

lemma isCents_add: "isCents a \<Longrightarrow> isCents b \<Longrightarrow> isCents (a + b)"
  unfolding isCents_iff
proof -
  assume "\<exists>n::int. a = of_int n / 100" "\<exists>n::int. b = of_int n / 100"
  then obtain n m :: int where "a = of_int n / 100" "b = of_int m / 100" by blast
  then have "a + b = of_int (n + m) / 100" by (simp add: add_divide_distrib)
  then show "\<exists>k::int. a + b = of_int k / 100" by blast
qed

lemma isCents_diff: "isCents a \<Longrightarrow> isCents b \<Longrightarrow> isCents (a - b)"
  unfolding isCents_iff
proof -
  assume "\<exists>n::int. a = of_int n / 100" "\<exists>n::int. b = of_int n / 100"
  then obtain n m :: int where "a = of_int n / 100" "b = of_int m / 100" by blast
  then have "a - b = of_int (n - m) / 100" by (simp add: diff_divide_distrib)
  then show "\<exists>k::int. a - b = of_int k / 100" by blast
qed

lemma frexp53_numeral:
  "frexp53 (numeral n) s m =
     (if m < 2 ^ 52 then frexp53 (pred_numeral n) (s / 2) (m * 2)
      else if 2 ^ 53 \<le> m then frexp53 (pred_numeral n) (s * 2) (m / 2)
      else Some (s, m))"
  by (simp add: numeral_eq_Suc)

lemma toFixed2_near: "\<bar>toFixed2 x - x\<bar> \<le> 1 / 200"
proof (cases "x < 0")
  case True
  define n where "n = \<lfloor>(- x) * 100 + 1 / 2\<rfloor>"
  have b: "of_int n \<le> (- x) * 100 + 1 / 2" "(- x) * 100 + 1 / 2 < of_int n + 1"
    unfolding n_def by linarith+
  have t: "toFixed2 x = - (of_int n / 100)"
    using True by (simp only: toFixed2_def n_def if_True)
  show ?thesis unfolding t abs_le_iff using b by (intro conjI) linarith+
next
  case False
  define n where "n = \<lfloor>x * 100 + 1 / 2\<rfloor>"
  have b: "of_int n \<le> x * 100 + 1 / 2" "x * 100 + 1 / 2 < of_int n + 1"
    unfolding n_def by linarith+
  have t: "toFixed2 x = of_int n / 100"
    using False by (simp only: toFixed2_def n_def if_False)
  show ?thesis unfolding t abs_le_iff using b by (intro conjI) linarith+
qed

lemma toFixed2_of_near_cents:
  assumes "isCents c" and "\<bar>y - c\<bar> < 1 / 200"
  shows "toFixed2 y = c"
proof -
  define k where "k = \<lfloor>c * 100\<rfloor>"
  have "of_int k = c * 100" using assms(1) by (simp only: isCents_def k_def)
  then have ck: "c = of_int k / 100" by simp
  have b: "of_int k - 1 / 2 < y * 100" "y * 100 < of_int k + 1 / 2"
    using assms(2) unfolding ck abs_less_iff by linarith+
  show ?thesis
  proof (cases "y < 0")
    case False
    have "\<lfloor>y * 100 + 1 / 2\<rfloor> = k" using b by (intro floor_unique) linarith+
    then show ?thesis using False by (simp only: toFixed2_def if_False ck)
  next
    case True
    have m: "real_of_int (- k) = - real_of_int k" by simp
    have "\<lfloor>(- y) * 100 + 1 / 2\<rfloor> = - k"
      using b unfolding atomize_conj by (intro floor_unique; unfold m; linarith)
    then show ?thesis using True by (simp only: toFixed2_def if_True ck)
  qed
qed

lemma roundEven_near: "\<bar>of_int (roundEven m) - m\<bar> \<le> 1 / 2"
proof -
  have "of_int \<lfloor>m\<rfloor> \<le> m" "m < of_int \<lfloor>m\<rfloor> + 1" by linarith+
  then show ?thesis by (auto simp: roundEven_def Let_def abs_le_iff)
qed

lemma frexp53_Some:
  "frexp53 k s m = Some (s', m') \<Longrightarrow> 0 < s \<Longrightarrow>
   0 < s' \<and> s' * m' = s * m \<and> 2 ^ 52 \<le> m' \<and> m' < 2 ^ 53"
proof (induction k arbitrary: s m)
  case 0
  then show ?case by simp
next
  case (Suc k)
  show ?case
  proof (cases "m < 2 ^ 52")
    case True
    with Suc.prems have "frexp53 k (s / 2) (m * 2) = Some (s', m')" by simp
    from Suc.IH[OF this] Suc.prems(2) show ?thesis by simp
  next
    case False
    show ?thesis
    proof (cases "2 ^ 53 \<le> m")
      case True
      with False Suc.prems have "frexp53 k (s * 2) (m / 2) = Some (s', m')" by simp
      from Suc.IH[OF this] Suc.prems(2) show ?thesis by simp
    next
      case False
      with \<open>\<not> m < 2 ^ 52\<close> Suc.prems show ?thesis by auto
    qed
  qed
qed

text \<open>The relative error of a double is at most \<open>2^-53\<close>.\<close>

lemma fl_error: "\<bar>fl x - x\<bar> \<le> \<bar>x\<bar> / 2 ^ 53"
proof (cases "x = 0")
  case True
  then show ?thesis by (simp add: fl_def)
next
  case nz: False
  show ?thesis
  proof (cases "frexp53 1100 1 \<bar>x\<bar>")
    case None
    then show ?thesis using nz by (simp add: fl_def)
  next
    case (Some sm)
    obtain s m where sm: "sm = (s, m)" by (cases sm)
    from frexp53_Some[OF Some[unfolded sm]]
    have s: "0 < s" and e: "s * m = \<bar>x\<bar>" and lo: "2 ^ 52 \<le> m" and hi: "m < 2 ^ 53" by simp_all
    have f: "fl x = sgn x * of_int (roundEven m) * s"
      using nz Some sm by (simp add: fl_def)
    have x: "x = sgn x * (s * m)" using e by (simp add: sgn_mult_abs)
    have "fl x - x = sgn x * s * (of_int (roundEven m) - m)"
      unfolding f by (subst (2) x) (simp add: algebra_simps)
    then have "\<bar>fl x - x\<bar> = s * \<bar>of_int (roundEven m) - m\<bar>"
      using nz s by (simp add: abs_mult abs_sgn_eq)
    also have "\<dots> \<le> s * (1 / 2)"
      using roundEven_near[of m] s by (intro mult_left_mono) simp_all
    also have "\<dots> \<le> s * (m / 2 ^ 53)"
      using lo s by (intro mult_left_mono) (simp_all add: field_simps)
    also have "\<dots> = \<bar>x\<bar> / 2 ^ 53" using e by simp
    finally show ?thesis .
  qed
qed

lemma fl_abs_le: "\<bar>fl x\<bar> \<le> 2 * \<bar>x\<bar>"
proof -
  have "\<bar>fl x\<bar> \<le> \<bar>fl x - x\<bar> + \<bar>x\<bar>" by simp
  also have "\<dots> \<le> \<bar>x\<bar> / 2 ^ 53 + \<bar>x\<bar>" using fl_error[of x] by simp
  also have "\<dots> \<le> 2 * \<bar>x\<bar>" by (simp add: field_simps)
  finally show ?thesis .
qed

lemma fl_sum_near:
  assumes "\<bar>a\<bar> \<le> 10 ^ 9" and "\<bar>b\<bar> \<le> 10 ^ 9"
  shows "\<bar>fl (fl a + fl b) - (a + b)\<bar> < 1 / 200"
proof -
  have ea: "\<bar>fl a - a\<bar> \<le> 10 ^ 9 / 2 ^ 53" and eb: "\<bar>fl b - b\<bar> \<le> 10 ^ 9 / 2 ^ 53"
    using fl_error[of a] fl_error[of b] assms by (simp_all add: field_simps)
  have "\<bar>fl a + fl b\<bar> \<le> \<bar>fl a\<bar> + \<bar>fl b\<bar>" by simp
  also have "\<dots> \<le> 2 * \<bar>a\<bar> + 2 * \<bar>b\<bar>" using fl_abs_le[of a] fl_abs_le[of b] by simp
  also have "\<dots> \<le> 4 * 10 ^ 9" using assms by simp
  finally have s: "\<bar>fl a + fl b\<bar> \<le> 4 * 10 ^ 9" .
  have es: "\<bar>fl (fl a + fl b) - (fl a + fl b)\<bar> \<le> 4 * 10 ^ 9 / 2 ^ 53"
    using fl_error[of "fl a + fl b"] s by (simp add: field_simps)
  have "\<bar>fl (fl a + fl b) - (a + b)\<bar> \<le>
        \<bar>fl (fl a + fl b) - (fl a + fl b)\<bar> + \<bar>fl a - a\<bar> + \<bar>fl b - b\<bar>" by simp
  also have "\<dots> \<le> 4 * 10 ^ 9 / 2 ^ 53 + 10 ^ 9 / 2 ^ 53 + 10 ^ 9 / 2 ^ 53"
    using es ea eb by simp
  also have "\<dots> < 1 / 200" by simp
  finally show ?thesis .
qed



text \<open>
  Between amounts in whole cents below a thousand million, the sum and the difference on
  doubles, rounded to cents, are the exact ones.
\<close>

lemma plusToFixed2_cents:
  assumes "isCents a" and "isCents b" and "\<bar>a\<bar> \<le> 10 ^ 9" and "\<bar>b\<bar> \<le> 10 ^ 9"
  shows "plusToFixed2 a b = a + b"
  unfolding plusToFixed2_def
  by (rule toFixed2_of_near_cents[OF isCents_add[OF assms(1,2)] fl_sum_near[OF assms(3,4)]])



lemma plusToFixed2_near:
  assumes "\<bar>a\<bar> \<le> 10 ^ 9" and "\<bar>b\<bar> \<le> 10 ^ 9"
  shows "\<bar>plusToFixed2 a b - (a + b)\<bar> < 1 / 100"
proof -
  have "\<bar>plusToFixed2 a b - (a + b)\<bar> \<le>
        \<bar>toFixed2 (fl (fl a + fl b)) - fl (fl a + fl b)\<bar> + \<bar>fl (fl a + fl b) - (a + b)\<bar>"
    unfolding plusToFixed2_def by simp
  also have "\<dots> < 1 / 200 + 1 / 200"
    using toFixed2_near[of "fl (fl a + fl b)"] fl_sum_near[OF assms] by simp
  finally show ?thesis by simp
qed

lemma isCents_betValOf: "isCents (betValOf amt)"
  by (simp add: betValOf_def Let_def isCents_toFixed2) (simp add: isCents_def)

lemma toFixed2_fl_cents:
  assumes "isCents a" and "\<bar>a\<bar> \<le> 10 ^ 9"
  shows "toFixed2 (fl a) = a"
proof -
  have "\<bar>fl a - a\<bar> \<le> 10 ^ 9 / 2 ^ 53"
    using fl_error[of a] assms(2) by (simp add: field_simps)
  then have "\<bar>fl a - a\<bar> < 1 / 200" by simp
  then show ?thesis by (rule toFixed2_of_near_cents[OF assms(1)])
qed


lemma betValOf_le2: "betValOf amt \<le> 2"
  by (simp add: betValOf_def Let_def)

lemma betValOf_below:
  assumes "isCents amt" and "amt < X" and "0 < X"
  shows "betValOf amt < X"
proof -
  consider "\<bar>amt\<bar> \<le> 10 ^ 9" | "10 ^ 9 < amt" | "amt < - (10 ^ 9)" by linarith
  then show ?thesis
  proof cases
    case 1
    have "toFixed2 (fl amt) = amt" by (rule toFixed2_fl_cents[OF assms(1) 1])
    then show ?thesis using assms(2) by (simp add: betValOf_def Let_def)
  next
    case 2
    then show ?thesis using betValOf_le2[of amt] assms(2) by simp
  next
    case 3
    have "fl amt - amt \<le> \<bar>fl amt - amt\<bar>" by simp
    also have "\<dots> \<le> \<bar>amt\<bar> / 2 ^ 53" by (rule fl_error)
    finally have a: "fl amt - amt \<le> \<bar>amt\<bar> / 2 ^ 53" .
    have "\<bar>amt\<bar> / 2 ^ 53 \<le> \<bar>amt\<bar> / 2" by (intro divide_left_mono) simp_all
    then have "fl amt - amt \<le> \<bar>amt\<bar> / 2" using a by linarith
    then have f: "fl amt < - 1" using 3 by simp
    have "toFixed2 (fl amt) - fl amt \<le> \<bar>toFixed2 (fl amt) - fl amt\<bar>" by simp
    also have "\<dots> \<le> 1 / 200" by (rule toFixed2_near)
    finally have "toFixed2 (fl amt) - fl amt \<le> 1 / 200" .
    then have "toFixed2 (fl amt) < 0" using f by linarith
    then show ?thesis using assms(3) by (simp add: betValOf_def Let_def)
  qed
qed


lemma getNext_absent:
  assumes "2 \<le> length (activePlayers ps)"
    and "currentPlayerTurn gs \<notin> pid ` set (activePlayers ps)"
  shows "getNextActivePlayerId gs ps = Some (pid (activePlayers ps ! 0))"
proof -
  have "findIndex (\<lambda>p. pid p = currentPlayerTurn gs) (activePlayers ps) = - 1"
    using assms(2) by (intro findIndex_none ballI notI) (metis image_eqI)
  then show ?thesis using assms(1) by (simp add: getNextActivePlayerId_def Let_def)
qed




lemma handleBet_Inr:
  assumes "handleBet (Some lid) adm amt db = Inr db'" and "gameState db = Some gs"
    and "lookupPlayer (players db) lid = Some cu"
  shows "lid \<noteq> [] \<and> \<not> waitingForDealer gs \<and> (adm \<or> currentPlayerTurn gs = lid)
       \<and> minBetOf gs \<le> betValOf amt \<and> betDiff (betValOf amt) cu \<le> balance cu
       \<and> db' = db\<lparr>
            gameState := Some (gs\<lparr>
              pot := toFixed2 (pot gs + betDiff (betValOf amt) cu),
              currentBet := betValOf amt,
              currentPlayerTurn := orEmpty (getNextActivePlayerId gs (players db))\<rparr>),
            players := map (\<lambda>p.
              if pid p = lid then
                p\<lparr>balance := minusToFixed2 (balance cu) (betDiff (betValOf amt) cu),
                  lastBet := betValOf amt,
                  hasActed := True,
                  totalBetThisHand := Some
                    ((case totalBetThisHand cu of None \<Rightarrow> 0 | Some t \<Rightarrow> t)
                      + betDiff (betValOf amt) cu)\<rparr>
              else if betValOf amt > currentBet gs then p\<lparr>hasActed := False\<rparr>
              else p) (players db)\<rparr>"
  using assms by (auto simp: handleBet_def Let_def split: if_splits)


lemma handleBet_raises_or_matches:
  assumes "minBetOf gs \<le> betValOf amt" and "\<not> betValOf amt > currentBet gs"
  shows "betValOf amt = currentBet gs"
  using assms by (auto simp: minBetOf_def split: if_splits)





lemma handleBet_keeps_table:
  assumes "gameState db = Some gs" and "0 < X" and "X \<le> currentBet gs"
  shows "\<exists>gs'. gameState (case handleBet lid adm amt db of Inl e \<Rightarrow> db | Inr db' \<Rightarrow> db') = Some gs'
             \<and> X \<le> currentBet gs'"
proof (cases "handleBet lid adm amt db")
  case (Inl e)
  then show ?thesis using assms by simp
next
  case (Inr db')
  then obtain i cu where "lid = Some i" "lookupPlayer (players db) i = Some cu"
    using assms(1) by (auto simp: handleBet_def split: option.splits if_splits)
  with Inr handleBet_Inr[of i adm amt db db' gs cu] assms(1)
  have "minBetOf gs \<le> betValOf amt" and "\<exists>gs'. gameState db' = Some gs' \<and> currentBet gs' = betValOf amt"
    by auto
  then show ?thesis using Inr assms(2,3) by (auto simp: minBetOf_def split: if_splits)
qed

lemma betSegment_keeps_level:
  assumes "gameState db = Some gs" and "0 < X" and "X \<le> currentBet gs"
  shows "\<exists>gs'. gameState (betSegment calls db) = Some gs' \<and> X \<le> currentBet gs'"
  using assms
proof (induction calls arbitrary: db gs)
  case Nil
  then show ?case by simp
next
  case (Cons c calls)
  obtain lid adm amt where c: "c = (lid, adm, amt)" by (cases c)
  from handleBet_keeps_table[OF Cons.prems, of lid adm amt]
  obtain gs1 where "gameState (case handleBet lid adm amt db of Inl e \<Rightarrow> db | Inr db' \<Rightarrow> db') = Some gs1"
    "X \<le> currentBet gs1" by blast
  from Cons.IH[OF this(1) Cons.prems(2) this(2)] show ?case by (simp add: c)
qed

lemma handleBet_below_rejected:
  assumes "gameState db = Some gs" and "0 < X" and "X \<le> currentBet gs" and "betValOf amt < X"
  shows "\<exists>e. handleBet lid adm amt db = Inl e"
  using assms
  by (auto simp: handleBet_def Let_def minBetOf_def split: option.splits if_splits)

lemma handleBet_short_rejected:
  assumes "gameState db = Some gs" and "lookupPlayer (players db) i = Some cu"
    and "isCents (lastBet cu)" and "betValOf amt - lastBet cu > balance cu"
  shows "\<exists>e. handleBet (Some i) adm amt db = Inl e"
proof -
  have c: "isCents (betValOf amt - lastBet cu)"
    using assms(3) by (simp add: isCents_diff isCents_betValOf)
  have "betDiff (betValOf amt) cu \<ge> betValOf amt - lastBet cu"
    by (simp add: betDiff_def toFixed2_cents[OF c])
  then have "betDiff (betValOf amt) cu > balance cu" using assms(4) by simp
  then show ?thesis using assms(1,2)
    by (auto simp: handleBet_def Let_def split: option.splits if_splits)
qed

text \<open>
  Claim C5. Once the table's \<open>currentBet\<close> is at least \<open>X > 0\<close>, it stays so through any
  run of calls of \<open>handleBet\<close>, and after any such run a bet below \<open>X\<close> is rejected, whoever
  submits it; a bet whose amount less the caller's \<open>lastBet\<close> exceeds the caller's balance is
  rejected; and a rejected call leaves the whole store as it was.
\<close>

theorem handleBet_rejections:
  assumes "gameState db = Some gs" and "0 < X" and "X \<le> currentBet gs"
  shows "(\<exists>gs1. gameState (betSegment calls db) = Some gs1 \<and> X \<le> currentBet gs1)
       \<and> (betValOf amt < X \<or> isCents amt \<and> amt < X
            \<longrightarrow> (\<exists>e. handleBet lid adm amt (betSegment calls db) = Inl e))
       \<and> (lookupPlayer (players db) i = Some cu \<and> isCents (lastBet cu)
            \<and> betValOf amt - lastBet cu > balance cu
            \<longrightarrow> (\<exists>e. handleBet (Some i) adm amt db = Inl e))
       \<and> (\<forall>e. handleBet lid adm amt db = Inl e \<longrightarrow> betSegment [(lid, adm, amt)] db = db)"
proof (intro conjI impI allI)
  show seg: "\<exists>gs1. gameState (betSegment calls db) = Some gs1 \<and> X \<le> currentBet gs1"
    by (rule betSegment_keeps_level[OF assms])
  show "\<exists>e. handleBet lid adm amt (betSegment calls db) = Inl e"
    if "betValOf amt < X \<or> isCents amt \<and> amt < X"
  proof -
    from that have b: "betValOf amt < X" using betValOf_below[OF _ _ assms(2)] by blast
    from seg obtain gs1 where "gameState (betSegment calls db) = Some gs1" "X \<le> currentBet gs1"
      by blast
    from handleBet_below_rejected[OF this(1) assms(2) this(2) b] show ?thesis .
  qed
  show "\<exists>e. handleBet (Some i) adm amt db = Inl e"
    if "lookupPlayer (players db) i = Some cu \<and> isCents (lastBet cu)
            \<and> betValOf amt - lastBet cu > balance cu"
    using that handleBet_short_rejected[OF assms(1), of i cu amt adm] by blast
  show "betSegment [(lid, adm, amt)] db = db" if "handleBet lid adm amt db = Inl e" for e
    using that by simp
qed


theorem handleBet_rejections_witness:
  "gameState betStore = Some ((mkTable 4 [] ''p1'')\<lparr>pot := 7 / 10, currentBet := 1 / 2\<rparr>)
   \<and> (0::real) < 1 / 2
   \<and> 1 / 2 \<le> currentBet ((mkTable 4 [] ''p1'')\<lparr>pot := 7 / 10, currentBet := 1 / 2\<rparr>)
   \<and> handleBet (Some ''p1'') False (3 / 10) betStore = Inl PuntataNonValida
   \<and> handleBet (Some ''p3'') True (1 / 2) betStore = Inl SaldoInsufficiente
   \<and> (\<exists>e. handleBet (Some ''p2'') True (4 / 10)
              (betSegment [(Some ''p1'', False, 1)] betStore) = Inl e)
   \<and> betSegment [(Some ''p1'', False, 3 / 10)] betStore = betStore"
proof -
  let ?gs = "(mkTable 4 [] ''p1'')\<lparr>pot := 7 / 10, currentBet := 1 / 2\<rparr>"
  have g: "gameState betStore = Some ?gs" by (simp add: betStore_def)
  have x1: "(0::real) < 1 / 2" by simp
  have x2: "1 / 2 \<le> currentBet ?gs" by (simp add: mkTable_def)
  have w: "\<not> waitingForDealer ?gs" and t: "currentPlayerTurn ?gs = ''p1''"
    and cb: "currentBet ?gs = 1 / 2"
    by (simp_all add: mkTable_def)
  have lk1: "lookupPlayer (players betStore) ''p1'' = Some (players betStore ! 0)"
    and lk3: "lookupPlayer (players betStore) ''p3'' = Some (players betStore ! 2)"
    by (simp_all add: betStore_def lookupPlayer_def mkPlayer_def)
  have bv3: "betValOf (3 / 10) = 3 / 10" and bv4: "betValOf (4 / 10) = 4 / 10"
    and bv5: "betValOf (1 / 2) = 1 / 2"
    by (simp_all add: betValOf_def fl_def frexp53_numeral roundEven_def toFixed2_def)
  have lt4: "betValOf (4 / 10) < 1 / 2" by (simp add: betValOf_def fl_def frexp53_numeral roundEven_def toFixed2_def)
  have p3: "lastBet (players betStore ! 2) = 0" "balance (players betStore ! 2) = 3 / 10"
    by (simp_all add: betStore_def mkPlayer_def)
  have r1: "handleBet (Some ''p1'') False (3 / 10) betStore = Inl PuntataNonValida"
    by (simp add: handleBet_def g lk1 w t minBetOf_def cb bv3)
  have r3: "handleBet (Some ''p3'') True (1 / 2) betStore = Inl SaldoInsufficiente"
    by (simp add: handleBet_def g lk3 w minBetOf_def cb bv5 betDiff_def p3 toFixed2_def)
  have c3: "isCents (lastBet (players betStore ! 2))" by (simp add: p3 isCents_def)
  have short: "betValOf (1 / 2) - lastBet (players betStore ! 2) > balance (players betStore ! 2)"
    by (simp add: bv5 p3)
  note R = handleBet_rejections[OF g x1 x2]
  have a: "\<exists>e. handleBet (Some ''p2'') True (4 / 10)
              (betSegment [(Some ''p1'', False, 1)] betStore) = Inl e"
    using R[of "[(Some ''p1'', False, 1)]" "4 / 10" "Some ''p2''" True] lt4
    by blast
  have b: "\<exists>e. handleBet (Some ''p3'') True (1 / 2) betStore = Inl e"
    using R[of _ "1 / 2" _ True "''p3''" "players betStore ! 2"] lk3 c3 short by blast
  have c: "betSegment [(Some ''p1'', False, 3 / 10)] betStore = betStore"
    using R[of _ "3 / 10" "Some ''p1''" False] r1 by blast
  show ?thesis using g x1 x2 r1 r3 a b c by simp
qed

section \<open>Settlement\<close>

lemma mathMin_Min: "xs \<noteq> [] \<Longrightarrow> mathMin xs = Some (Min (set xs))"
proof (cases xs)
  case Nil
  assume "xs \<noteq> []"
  with Nil show ?thesis by simp
next
  case (Cons a list)
  have "fold min list a = Min (set (a # list))" by (rule Min.set_eq_fold[symmetric])
  then show ?thesis using Cons by (simp only: mathMin_def list.case)
qed

lemma mathMax_Max: "xs \<noteq> [] \<Longrightarrow> mathMax xs = Some (Max (set xs))"
proof (cases xs)
  case Nil
  assume "xs \<noteq> []"
  with Nil show ?thesis by simp
next
  case (Cons a list)
  have "fold max list a = Max (set (a # list))" by (rule Max.set_eq_fold[symmetric])
  then show ?thesis using Cons by (simp only: mathMax_def list.case)
qed

lemma declaredPlayers_set:
  "set (declaredPlayers ps) =
   {p \<in> set ps. folded p = Some False \<and> choice p \<noteq> None \<and> finalScore p \<noteq> None}"
  by (auto simp: declaredPlayers_def)

lemma minPlayersOf_set:
  "set (minPlayersOf ps) =
   {p \<in> set ps. folded p = Some False \<and> choice p = Some CMin \<and> finalScore p \<noteq> None}"
  by (auto simp: minPlayersOf_def declaredPlayers_def)

lemma maxPlayersOf_set:
  "set (maxPlayersOf ps) =
   {p \<in> set ps. folded p = Some False \<and> choice p = Some CMax \<and> finalScore p \<noteq> None}"
  by (auto simp: maxPlayersOf_def declaredPlayers_def)

lemma groups_cover:
  "declaredPlayers ps \<noteq> [] \<Longrightarrow> minPlayersOf ps \<noteq> [] \<or> maxPlayersOf ps \<noteq> []"
proof -
  assume "declaredPlayers ps \<noteq> []"
  then obtain p where p: "p \<in> set (declaredPlayers ps)" by (cases "declaredPlayers ps") auto
  then obtain c where "choice p = Some c" by (auto simp: declaredPlayers_set)
  then have "p \<in> set (minPlayersOf ps) \<or> p \<in> set (maxPlayersOf ps)"
    using p by (cases c) (auto simp: minPlayersOf_def maxPlayersOf_def)
  then show ?thesis by auto
qed

lemma minWinnersOf_set:
  "set (minWinnersOf ps) =
   {p \<in> set (minPlayersOf ps).
      \<forall>q \<in> set (minPlayersOf ps). the (finalScore p) \<le> the (finalScore q)}"
proof (cases "minPlayersOf ps = []")
  case True
  then show ?thesis by (simp add: minWinnersOf_def)
next
  case False
  let ?sc = "map (\<lambda>p. the (finalScore p)) (minPlayersOf ps)"
  have m: "mathMin ?sc = Some (Min (set ?sc))" using False by (simp add: mathMin_Min)
  have some: "\<And>p. p \<in> set (minPlayersOf ps) \<Longrightarrow> finalScore p = Some (the (finalScore p))"
    by (auto simp: minPlayersOf_set)
  have "\<And>p. p \<in> set (minPlayersOf ps) \<Longrightarrow>
          (finalScore p = Some (Min (set ?sc))) =
          (\<forall>q \<in> set (minPlayersOf ps). the (finalScore p) \<le> the (finalScore q))"
  proof -
    fix p assume p: "p \<in> set (minPlayersOf ps)"
    have fin: "finite (set ?sc)" and ne: "set ?sc \<noteq> {}" using False by simp_all
    have mem: "the (finalScore p) \<in> set ?sc" using p by simp
    have "(the (finalScore p) = Min (set ?sc)) =
          (\<forall>s \<in> set ?sc. the (finalScore p) \<le> s)"
      using fin ne mem by (metis Min_eqI Min_le)
    then show "(finalScore p = Some (Min (set ?sc))) =
          (\<forall>q \<in> set (minPlayersOf ps). the (finalScore p) \<le> the (finalScore q))"
      using some[OF p] by (metis (mono_tags, lifting) image_iff list.set_map option.sel imageI)
  qed
  then show ?thesis by (auto simp: minWinnersOf_def Let_def m)
qed

lemma maxWinnersOf_set:
  "set (maxWinnersOf ps) =
   {p \<in> set (maxPlayersOf ps).
      \<forall>q \<in> set (maxPlayersOf ps). the (finalScore q) \<le> the (finalScore p)}"
proof (cases "maxPlayersOf ps = []")
  case True
  then show ?thesis by (simp add: maxWinnersOf_def)
next
  case False
  let ?sc = "map (\<lambda>p. the (finalScore p)) (maxPlayersOf ps)"
  have m: "mathMax ?sc = Some (Max (set ?sc))" using False by (simp add: mathMax_Max)
  have some: "\<And>p. p \<in> set (maxPlayersOf ps) \<Longrightarrow> finalScore p = Some (the (finalScore p))"
    by (auto simp: maxPlayersOf_set)
  have "\<And>p. p \<in> set (maxPlayersOf ps) \<Longrightarrow>
          (finalScore p = Some (Max (set ?sc))) =
          (\<forall>q \<in> set (maxPlayersOf ps). the (finalScore q) \<le> the (finalScore p))"
  proof -
    fix p assume p: "p \<in> set (maxPlayersOf ps)"
    have fin: "finite (set ?sc)" and ne: "set ?sc \<noteq> {}" using False by simp_all
    have mem: "the (finalScore p) \<in> set ?sc" using p by simp
    have "(the (finalScore p) = Max (set ?sc)) =
          (\<forall>s \<in> set ?sc. s \<le> the (finalScore p))"
      using fin ne mem by (metis Max_eqI Max_ge)
    then show "(finalScore p = Some (Max (set ?sc))) =
          (\<forall>q \<in> set (maxPlayersOf ps). the (finalScore q) \<le> the (finalScore p))"
      using some[OF p] by (metis (mono_tags, lifting) image_iff list.set_map option.sel imageI)
  qed
  then show ?thesis by (auto simp: maxWinnersOf_def Let_def m)
qed

lemma minWinners_nonempty: "minPlayersOf ps \<noteq> [] \<Longrightarrow> minWinnersOf ps \<noteq> []"
proof -
  assume ne: "minPlayersOf ps \<noteq> []"
  let ?sc = "map (\<lambda>p. the (finalScore p)) (minPlayersOf ps)"
  have "Min (set ?sc) \<in> set ?sc" using ne by (intro Min_in) simp_all
  then obtain p where p: "p \<in> set (minPlayersOf ps)" "the (finalScore p) = Min (set ?sc)"
    by auto
  then have "\<forall>q \<in> set (minPlayersOf ps). the (finalScore p) \<le> the (finalScore q)"
    by simp
  with p(1) have "p \<in> set (minWinnersOf ps)" by (simp add: minWinnersOf_set)
  then show ?thesis by auto
qed

lemma maxWinners_nonempty: "maxPlayersOf ps \<noteq> [] \<Longrightarrow> maxWinnersOf ps \<noteq> []"
proof -
  assume ne: "maxPlayersOf ps \<noteq> []"
  let ?sc = "map (\<lambda>p. the (finalScore p)) (maxPlayersOf ps)"
  have "Max (set ?sc) \<in> set ?sc" using ne by (intro Max_in) simp_all
  then obtain p where p: "p \<in> set (maxPlayersOf ps)" "the (finalScore p) = Max (set ?sc)"
    by auto
  then have "\<forall>q \<in> set (maxPlayersOf ps). the (finalScore q) \<le> the (finalScore p)"
    by simp
  with p(1) have "p \<in> set (maxWinnersOf ps)" by (simp add: maxWinnersOf_set)
  then show ?thesis by auto
qed

lemma normalUpdates_eq:
  "normalUpdates pot0 ps =
     map (\<lambda>w. (pid w, plusToFixed2 (balance w) (splitAmountOf pot0 ps (minWinnersOf ps)))) (minWinnersOf ps) @
     map (\<lambda>w. (pid w, plusToFixed2 (balance w) (splitAmountOf pot0 ps (maxWinnersOf ps)))) (maxWinnersOf ps)"
  by (auto simp: normalUpdates_def minWinnersOf_def maxWinnersOf_def)

lemma normalWinnersInfo_nonempty:
  "declaredPlayers ps \<noteq> [] \<Longrightarrow> normalWinnersInfo pot0 ps \<noteq> []"
  using groups_cover[of ps] minWinners_nonempty[of ps] maxWinners_nonempty[of ps]
  by (auto simp: normalWinnersInfo_def)

lemma normalUpdates_nonempty:
  "declaredPlayers ps \<noteq> [] \<Longrightarrow> normalUpdates pot0 ps \<noteq> []"
  using groups_cover[of ps] minWinners_nonempty[of ps] maxWinners_nonempty[of ps]
  by (auto simp: normalUpdates_def)

lemma winners_disjoint: "set (minWinnersOf ps) \<inter> set (maxWinnersOf ps) = {}"
  by (auto simp: minWinnersOf_set maxWinnersOf_set minPlayersOf_set maxPlayersOf_set)

lemma winners_subset:
  "set (minWinnersOf ps) \<subseteq> set ps" "set (maxWinnersOf ps) \<subseteq> set ps"
  by (auto simp: minWinnersOf_set maxWinnersOf_set minPlayersOf_set maxPlayersOf_set)

lemma winners_distinct:
  assumes "distinct (map pid ps)"
  shows "distinct (map pid (minWinnersOf ps @ maxWinnersOf ps))"
proof -
  have inj: "inj_on pid (set ps)" and dp: "distinct ps" using assms by (simp_all add: distinct_map)
  have d1: "distinct (minWinnersOf ps)" "distinct (maxWinnersOf ps)"
    using dp by (simp_all add: minWinnersOf_def maxWinnersOf_def minPlayersOf_def maxPlayersOf_def
                               declaredPlayers_def Let_def)
  have sub: "set (minWinnersOf ps @ maxWinnersOf ps) \<subseteq> set ps" using winners_subset by auto
  have "distinct (minWinnersOf ps @ maxWinnersOf ps)" using d1 winners_disjoint by simp
  moreover have "inj_on pid (set (minWinnersOf ps @ maxWinnersOf ps))"
    using inj sub by (rule inj_on_subset)
  ultimately show ?thesis by (simp only: distinct_map)
qed

lemma normalUpdates_fst:
  "map fst (normalUpdates pot0 ps) = map pid (minWinnersOf ps @ maxWinnersOf ps)"
  by (simp add: normalUpdates_eq comp_def)

lemma applyBalances_nth:
  assumes "i < length ps"
  shows "applyBalances us ps ! i =
         (case map_of (rev us) (pid (ps ! i)) of None \<Rightarrow> ps ! i
          | Some b \<Rightarrow> (ps ! i)\<lparr>balance := b\<rparr>)"
  using assms by (simp add: applyBalances_def)

lemma normalUpdates_min:
  assumes "distinct (map pid ps)" and "p \<in> set (minWinnersOf ps)"
  shows "map_of (rev (normalUpdates pot0 ps)) (pid p) =
         Some (plusToFixed2 (balance p) (splitAmountOf pot0 ps (minWinnersOf ps)))"
proof -
  have "distinct (map fst (normalUpdates pot0 ps))"
    by (simp only: normalUpdates_fst winners_distinct[OF assms(1)])
  moreover have "(pid p, plusToFixed2 (balance p) (splitAmountOf pot0 ps (minWinnersOf ps)))
                 \<in> set (normalUpdates pot0 ps)"
    using assms(2) by (auto simp: normalUpdates_eq)
  ultimately show ?thesis by (rule map_of_rev_distinct)
qed

lemma normalUpdates_max:
  assumes "distinct (map pid ps)" and "p \<in> set (maxWinnersOf ps)"
  shows "map_of (rev (normalUpdates pot0 ps)) (pid p) =
         Some (plusToFixed2 (balance p) (splitAmountOf pot0 ps (maxWinnersOf ps)))"
proof -
  have "distinct (map fst (normalUpdates pot0 ps))"
    by (simp only: normalUpdates_fst winners_distinct[OF assms(1)])
  moreover have "(pid p, plusToFixed2 (balance p) (splitAmountOf pot0 ps (maxWinnersOf ps)))
                 \<in> set (normalUpdates pot0 ps)"
    using assms(2) by (auto simp: normalUpdates_eq)
  ultimately show ?thesis by (rule map_of_rev_distinct)
qed

lemma normalUpdates_other:
  assumes "distinct (map pid ps)" and "p \<in> set ps"
    and "p \<notin> set (minWinnersOf ps) \<union> set (maxWinnersOf ps)"
  shows "map_of (rev (normalUpdates pot0 ps)) (pid p) = None"
proof -
  have inj: "inj_on pid (set ps)" using assms(1) by (simp add: distinct_map)
  have "pid p \<notin> pid ` (set (minWinnersOf ps) \<union> set (maxWinnersOf ps))"
  proof
    assume "pid p \<in> pid ` (set (minWinnersOf ps) \<union> set (maxWinnersOf ps))"
    then obtain w where w: "w \<in> set (minWinnersOf ps) \<union> set (maxWinnersOf ps)" "pid p = pid w"
      by auto
    then have "w \<in> set ps" using winners_subset by auto
    with inj w(2) assms(2) have "w = p" by (metis inj_onD)
    with w(1) assms(3) show False by simp
  qed
  moreover have "fst ` set (rev (normalUpdates pot0 ps)) =
                 pid ` (set (minWinnersOf ps) \<union> set (maxWinnersOf ps))"
  proof -
    have "fst ` set (rev (normalUpdates pot0 ps)) = set (map fst (normalUpdates pot0 ps))"
      by simp
    also have "\<dots> = set (map pid (minWinnersOf ps @ maxWinnersOf ps))"
      by (simp only: normalUpdates_fst)
    also have "\<dots> = pid ` (set (minWinnersOf ps) \<union> set (maxWinnersOf ps))"
      by (simp add: image_Un)
    finally show ?thesis .
  qed
  ultimately have "pid p \<notin> fst ` set (rev (normalUpdates pot0 ps))" by simp
  then show ?thesis by (simp add: map_of_eq_None_iff)
qed

lemma calculateWinners_normal:
  assumes "gameState db = Some gs" and "declaredPlayers (players db) \<noteq> []"
  shows "calculateWinners None now db =
         Inr (db\<lparr>players := applyBalances (normalUpdates (pot gs) (players db)) (players db),
                 history := history db @
                   [\<lparr>winners = normalWinnersInfo (pot gs) (players db), potAmount = pot gs,
                     timestamp = now\<rparr>],
                 gameState := Some (gs\<lparr>phase := Results, isFirstHand := False\<rparr>)\<rparr>)"
  using assms normalUpdates_nonempty[OF assms(2), of "pot gs"]
    normalWinnersInfo_nonempty[OF assms(2), of "pot gs"]
  by (simp add: calculateWinners_def commitSettlement_def Let_def)

lemma fl_10: "fl 10 = 10"
  by (simp add: fl_def frexp53_numeral roundEven_def)

lemma settleStore_result:
  "calculateWinners None now settleStore =
     Inr (settleStore\<lparr>
       players := [(mkPlayer ''A'' 0 (35 / 10))\<lparr>choice := Some CMin, finalScore := Some 5\<rparr>,
                   (mkPlayer ''B'' 1 (45 / 10))\<lparr>choice := Some CMin, finalScore := Some 5\<rparr>,
                   (mkPlayer ''C'' 2 8)\<lparr>choice := Some CMax, finalScore := Some 20\<rparr>],
       history := [\<lparr>winners = [\<lparr>winnerName = ''A'', amount = 25 / 10, tag = MinWin True\<rparr>,
                                \<lparr>winnerName = ''B'', amount = 25 / 10, tag = MinWin True\<rparr>,
                                \<lparr>winnerName = ''C'', amount = 5, tag = MaxWin False\<rparr>],
                     potAmount = 10, timestamp = now\<rparr>],
       gameState := Some ((mkTable 4 [] [])\<lparr>phase := Results, pot := 10\<rparr>)\<rparr>)"
proof -
  let ?ps = "players settleStore"
  have g: "gameState settleStore = Some ((mkTable 4 [] [])\<lparr>phase := Final, pot := 10\<rparr>)"
    by (simp add: settleStore_def)
  have dp: "declaredPlayers ?ps = ?ps"
    by (simp add: declaredPlayers_def settleStore_def mkPlayer_def)
  have mn: "minPlayersOf ?ps = [?ps ! 0, ?ps ! 1]" and mx: "maxPlayersOf ?ps = [?ps ! 2]"
    by (simp_all add: minPlayersOf_def maxPlayersOf_def dp) (simp_all add: settleStore_def mkPlayer_def)
  have mw: "minWinnersOf ?ps = [?ps ! 0, ?ps ! 1]"
    by (simp add: minWinnersOf_def mn mathMin_def) (simp add: settleStore_def mkPlayer_def Let_def)
  have xw: "maxWinnersOf ?ps = [?ps ! 2]"
    by (simp add: maxWinnersOf_def mx mathMax_def) (simp add: settleStore_def mkPlayer_def Let_def)
  have sh: "shareOf 10 ?ps = 5" by (simp add: shareOf_def mn mx fl_10)
  have q1: "toFixed2 (fl (5 / 2)) = 25 / 10" and q2: "toFixed2 (fl 5) = 5"
    by (simp_all add: fl_def frexp53_numeral roundEven_def toFixed2_def)
  have s1: "splitAmountOf 10 ?ps (minWinnersOf ?ps) = 25 / 10"
    and s2: "splitAmountOf 10 ?ps (maxWinnersOf ?ps) = 5"
    unfolding splitAmountOf_def sh mw xw using q1 q2 by simp_all
  have a0: "plusToFixed2 1 (5 / 2) = 7 / 2" and a1: "plusToFixed2 2 (5 / 2) = 9 / 2"
    and a2: "plusToFixed2 3 5 = 8"
    by (simp_all add: plusToFixed2_def fl_def frexp53_numeral roundEven_def toFixed2_def)
  have us: "normalUpdates 10 ?ps = [(''A'', 35 / 10), (''B'', 45 / 10), (''C'', 8)]"
    unfolding normalUpdates_def s1 s2
    by (simp add: mn mx mw xw) (simp add: settleStore_def mkPlayer_def a0 a1 a2)
  have wi: "normalWinnersInfo 10 ?ps =
      [\<lparr>winnerName = ''A'', amount = 25 / 10, tag = MinWin True\<rparr>,
       \<lparr>winnerName = ''B'', amount = 25 / 10, tag = MinWin True\<rparr>,
       \<lparr>winnerName = ''C'', amount = 5, tag = MaxWin False\<rparr>]"
    unfolding normalWinnersInfo_def s1 s2
    by (simp add: mn mx mw xw) (simp add: settleStore_def mkPlayer_def)
  have ab: "applyBalances [(''A'', 35 / 10), (''B'', 45 / 10), (''C'', 8)] ?ps =
      [(mkPlayer ''A'' 0 (35 / 10))\<lparr>choice := Some CMin, finalScore := Some 5\<rparr>,
       (mkPlayer ''B'' 1 (45 / 10))\<lparr>choice := Some CMin, finalScore := Some 5\<rparr>,
       (mkPlayer ''C'' 2 8)\<lparr>choice := Some CMax, finalScore := Some 20\<rparr>]"
    by (simp add: applyBalances_def settleStore_def mkPlayer_def)
  have ne: "declaredPlayers ?ps \<noteq> []" by (simp add: dp) (simp add: settleStore_def)
  have p: "pot ((mkTable 4 [] [])\<lparr>phase := Final, pot := 10\<rparr>) = 10" by simp
  show ?thesis
    unfolding calculateWinners_normal[OF g ne] p us wi ab
    by (simp add: settleStore_def mkTable_def)
qed

lemma normalWinnersInfo_amounts:
  "map amount (normalWinnersInfo pot0 ps) =
     replicate (length (minWinnersOf ps)) (splitAmountOf pot0 ps (minWinnersOf ps)) @
     replicate (length (maxWinnersOf ps)) (splitAmountOf pot0 ps (maxWinnersOf ps))"
  by (auto simp: normalWinnersInfo_def minWinnersOf_def maxWinnersOf_def comp_def
                 map_replicate_const)

lemma normalWinnersInfo_names:
  "map winnerName (normalWinnersInfo pot0 ps) =
     map username (minWinnersOf ps @ maxWinnersOf ps)"
  by (auto simp: normalWinnersInfo_def minWinnersOf_def maxWinnersOf_def comp_def)

lemma splitAmountOf_near:
  "\<bar>splitAmountOf pot0 ps ws - shareOf pot0 ps / real (length ws)\<bar>
     \<le> 1 / 200 + \<bar>shareOf pot0 ps / real (length ws)\<bar> / 2 ^ 53"
proof -
  let ?q = "shareOf pot0 ps / real (length ws)"
  have "\<bar>toFixed2 (fl ?q) - ?q\<bar> \<le> \<bar>toFixed2 (fl ?q) - fl ?q\<bar> + \<bar>fl ?q - ?q\<bar>" by simp
  also have "\<dots> \<le> 1 / 200 + \<bar>?q\<bar> / 2 ^ 53"
    using toFixed2_near[of "fl ?q"] fl_error[of ?q] by simp
  finally show ?thesis by (simp only: splitAmountOf_def)
qed

lemma splitAmountOf_bound:
  assumes "\<bar>pot0\<bar> \<le> 10 ^ 8"
  shows "\<bar>splitAmountOf pot0 ps ws\<bar> \<le> 10 ^ 9"
proof -
  let ?q = "shareOf pot0 ps / real (length ws)"
  have f: "\<bar>fl pot0\<bar> \<le> 2 * 10 ^ 8" using fl_abs_le[of pot0] assms by simp
  have "\<bar>shareOf pot0 ps\<bar> \<le> \<bar>fl pot0\<bar>" by (simp add: shareOf_def)
  then have s: "\<bar>shareOf pot0 ps\<bar> \<le> 2 * 10 ^ 8" using f by simp
  have q: "\<bar>?q\<bar> \<le> 2 * 10 ^ 8"
  proof (cases "length ws = 0")
    case True
    then show ?thesis by simp
  next
    case False
    then have n: "0 < length ws" by simp
    have "\<bar>shareOf pot0 ps\<bar> / real (length ws) \<le> \<bar>shareOf pot0 ps\<bar> / 1"
      using n by (intro divide_left_mono) (simp_all add: Suc_le_eq)
    then show ?thesis using s by simp
  qed
  have "\<bar>fl ?q\<bar> \<le> 4 * 10 ^ 8" using fl_abs_le[of ?q] q by simp
  moreover have "\<bar>toFixed2 (fl ?q)\<bar> \<le> \<bar>toFixed2 (fl ?q) - fl ?q\<bar> + \<bar>fl ?q\<bar>" by simp
  ultimately have "\<bar>toFixed2 (fl ?q)\<bar> \<le> 1 / 200 + 4 * 10 ^ 8"
    using toFixed2_near[of "fl ?q"] by simp
  then show ?thesis by (simp add: splitAmountOf_def)
qed

text \<open>
  Claim C1. The settlement by scores, on a table with at least one declared player not
  folded: the players in play are those not folded with a choice and a score, \<open>minPlayersOf\<close>
  and \<open>maxPlayersOf\<close> are those who chose min and max, and the winners of a group are its
  players with the least, respectively the greatest, score. The share of a group is half
  the pot when both groups have players and the whole pot otherwise, the pot being the double
  that holds it. Every winner of a group is paid the same amount, the share divided by the
  number of the group's winners as doubles and rounded to two decimals: it is in whole cents,
  at most half a cent (and the error of the division) away from the exact quotient, and it is
  the amount the history entry records for each winner. It is added to the winner's balance
  as doubles and the sum is rounded to two decimals, which for a balance in whole cents is
  the balance plus the amount; nobody else changes. With 10.00 in the pot, A and B on 5 under
  min and C on 20 under max, A and B gain 2.50 each and C gains 5.00, which together are the
  pot.
\<close>

theorem calculateWinners_splits_pot:
  assumes gs: "gameState db = Some gs" and d: "distinct (map pid (players db))"
    and ne: "declaredPlayers (players db) \<noteq> []"
  shows "\<exists>db' h. calculateWinners None now db = Inr db'
       \<and> length (players db') = length (players db)
       \<and> (\<forall>i < length (players db).
             (players db ! i \<in> set (minWinnersOf (players db)) \<longrightarrow>
                players db' ! i = (players db ! i)\<lparr>balance :=
                  toFixed2 (fl (fl (balance (players db ! i)) +
                    fl (splitAmountOf (pot gs) (players db) (minWinnersOf (players db)))))\<rparr>)
           \<and> (players db ! i \<in> set (maxWinnersOf (players db)) \<longrightarrow>
                players db' ! i = (players db ! i)\<lparr>balance :=
                  toFixed2 (fl (fl (balance (players db ! i)) +
                    fl (splitAmountOf (pot gs) (players db) (maxWinnersOf (players db)))))\<rparr>)
           \<and> (players db ! i \<notin> set (minWinnersOf (players db)) \<union> set (maxWinnersOf (players db))
                \<longrightarrow> players db' ! i = players db ! i))
       \<and> (\<bar>pot gs\<bar> \<le> 10 ^ 8 \<longrightarrow>
            (\<forall>i < length (players db).
               isCents (balance (players db ! i)) \<and> \<bar>balance (players db ! i)\<bar> \<le> 10 ^ 9 \<longrightarrow>
                 (players db ! i \<in> set (minWinnersOf (players db)) \<longrightarrow>
                    balance (players db' ! i) = balance (players db ! i) +
                      splitAmountOf (pot gs) (players db) (minWinnersOf (players db)))
               \<and> (players db ! i \<in> set (maxWinnersOf (players db)) \<longrightarrow>
                    balance (players db' ! i) = balance (players db ! i) +
                      splitAmountOf (pot gs) (players db) (maxWinnersOf (players db)))))
       \<and> history db' = history db @ [h]
       \<and> map winnerName (winners h) =
           map username (minWinnersOf (players db) @ maxWinnersOf (players db))
       \<and> map amount (winners h) =
           replicate (length (minWinnersOf (players db)))
             (splitAmountOf (pot gs) (players db) (minWinnersOf (players db))) @
           replicate (length (maxWinnersOf (players db)))
             (splitAmountOf (pot gs) (players db) (maxWinnersOf (players db)))
       \<and> shareOf (pot gs) (players db) =
           (if minPlayersOf (players db) \<noteq> [] \<and> maxPlayersOf (players db) \<noteq> []
            then fl (pot gs) / 2 else fl (pot gs))
       \<and> \<bar>fl (pot gs) - pot gs\<bar> \<le> \<bar>pot gs\<bar> / 2 ^ 53
       \<and> (\<forall>ws. ws \<noteq> [] \<longrightarrow>
             splitAmountOf (pot gs) (players db) ws =
               toFixed2 (fl (shareOf (pot gs) (players db) / real (length ws)))
           \<and> isCents (splitAmountOf (pot gs) (players db) ws)
           \<and> \<bar>splitAmountOf (pot gs) (players db) ws
                - shareOf (pot gs) (players db) / real (length ws)\<bar>
               \<le> 1 / 200 + \<bar>shareOf (pot gs) (players db) / real (length ws)\<bar> / 2 ^ 53)
       \<and> set (minPlayersOf (players db)) =
           {p \<in> set (players db). folded p = Some False \<and> choice p = Some CMin \<and> finalScore p \<noteq> None}
       \<and> set (maxPlayersOf (players db)) =
           {p \<in> set (players db). folded p = Some False \<and> choice p = Some CMax \<and> finalScore p \<noteq> None}
       \<and> set (minWinnersOf (players db)) =
           {p \<in> set (minPlayersOf (players db)).
              \<forall>q \<in> set (minPlayersOf (players db)). the (finalScore p) \<le> the (finalScore q)}
       \<and> set (maxWinnersOf (players db)) =
           {p \<in> set (maxPlayersOf (players db)).
              \<forall>q \<in> set (maxPlayersOf (players db)). the (finalScore q) \<le> the (finalScore p)}
       \<and> (minPlayersOf (players db) \<noteq> [] \<longrightarrow> minWinnersOf (players db) \<noteq> [])
       \<and> (maxPlayersOf (players db) \<noteq> [] \<longrightarrow> maxWinnersOf (players db) \<noteq> [])
       \<and> balancesAfter (calculateWinners None now settleStore) = [1 + 5 / 2, 2 + 5 / 2, 3 + 5]
       \<and> potAfter (Inr settleStore) = Some (5 / 2 + 5 / 2 + 5)"
proof -
  let ?ps = "players db"
  let ?h = "\<lparr>winners = normalWinnersInfo (pot gs) ?ps, potAmount = pot gs, timestamp = now\<rparr>"
  let ?db' = "db\<lparr>players := applyBalances (normalUpdates (pot gs) ?ps) ?ps,
                 history := history db @ [?h],
                 gameState := Some (gs\<lparr>phase := Results, isFirstHand := False\<rparr>)\<rparr>"
  let ?smin = "splitAmountOf (pot gs) ?ps (minWinnersOf ?ps)"
  let ?smax = "splitAmountOf (pot gs) ?ps (maxWinnersOf ?ps)"
  have r: "calculateWinners None now db = Inr ?db'" by (rule calculateWinners_normal[OF gs ne])
  have len: "length (players ?db') = length ?ps" by (simp add: applyBalances_def)
  have nth: "players ?db' ! i =
         (case map_of (rev (normalUpdates (pot gs) ?ps)) (pid (?ps ! i)) of None \<Rightarrow> ?ps ! i
          | Some b \<Rightarrow> (?ps ! i)\<lparr>balance := b\<rparr>)" if "i < length ?ps" for i
    using applyBalances_nth[OF that] by simp
  have emin: "players ?db' ! i = (?ps ! i)\<lparr>balance := plusToFixed2 (balance (?ps ! i)) ?smin\<rparr>"
    if "i < length ?ps" "?ps ! i \<in> set (minWinnersOf ?ps)" for i
    unfolding nth[OF that(1)] normalUpdates_min[OF d that(2)] by simp
  have emax: "players ?db' ! i = (?ps ! i)\<lparr>balance := plusToFixed2 (balance (?ps ! i)) ?smax\<rparr>"
    if "i < length ?ps" "?ps ! i \<in> set (maxWinnersOf ?ps)" for i
    unfolding nth[OF that(1)] normalUpdates_max[OF d that(2)] by simp
  have each: "\<forall>i < length ?ps.
             (?ps ! i \<in> set (minWinnersOf ?ps) \<longrightarrow>
                players ?db' ! i = (?ps ! i)\<lparr>balance :=
                  toFixed2 (fl (fl (balance (?ps ! i)) + fl ?smin))\<rparr>)
           \<and> (?ps ! i \<in> set (maxWinnersOf ?ps) \<longrightarrow>
                players ?db' ! i = (?ps ! i)\<lparr>balance :=
                  toFixed2 (fl (fl (balance (?ps ! i)) + fl ?smax))\<rparr>)
           \<and> (?ps ! i \<notin> set (minWinnersOf ?ps) \<union> set (maxWinnersOf ?ps)
                \<longrightarrow> players ?db' ! i = ?ps ! i)"
  proof (intro allI impI conjI)
    fix i assume i: "i < length ?ps"
    then have mem: "?ps ! i \<in> set ?ps" by simp
    show "players ?db' ! i = (?ps ! i)\<lparr>balance :=
                  toFixed2 (fl (fl (balance (?ps ! i)) + fl ?smin))\<rparr>"
      if "?ps ! i \<in> set (minWinnersOf ?ps)"
      unfolding emin[OF i that] by (simp only: plusToFixed2_def)
    show "players ?db' ! i = (?ps ! i)\<lparr>balance :=
                  toFixed2 (fl (fl (balance (?ps ! i)) + fl ?smax))\<rparr>"
      if "?ps ! i \<in> set (maxWinnersOf ?ps)"
      unfolding emax[OF i that] by (simp only: plusToFixed2_def)
    show "players ?db' ! i = ?ps ! i"
      if "?ps ! i \<notin> set (minWinnersOf ?ps) \<union> set (maxWinnersOf ?ps)"
      unfolding nth[OF i] normalUpdates_other[OF d mem that] by simp
  qed
  have cents: "\<bar>pot gs\<bar> \<le> 10 ^ 8 \<longrightarrow>
            (\<forall>i < length ?ps.
               isCents (balance (?ps ! i)) \<and> \<bar>balance (?ps ! i)\<bar> \<le> 10 ^ 9 \<longrightarrow>
                 (?ps ! i \<in> set (minWinnersOf ?ps) \<longrightarrow>
                    balance (players ?db' ! i) = balance (?ps ! i) + ?smin)
               \<and> (?ps ! i \<in> set (maxWinnersOf ?ps) \<longrightarrow>
                    balance (players ?db' ! i) = balance (?ps ! i) + ?smax))"
  proof (intro allI impI conjI)
    fix i assume p: "\<bar>pot gs\<bar> \<le> 10 ^ 8" and i: "i < length ?ps"
      and b: "isCents (balance (?ps ! i)) \<and> \<bar>balance (?ps ! i)\<bar> \<le> 10 ^ 9"
    have c: "isCents (balance (?ps ! i))" and m: "\<bar>balance (?ps ! i)\<bar> \<le> 10 ^ 9"
      using b by simp_all
    have cs: "isCents (splitAmountOf (pot gs) ?ps ws)" for ws
      unfolding splitAmountOf_def by (rule isCents_toFixed2)
    show "balance (players ?db' ! i) = balance (?ps ! i) + ?smin"
      if "?ps ! i \<in> set (minWinnersOf ?ps)"
      unfolding emin[OF i that]
      using plusToFixed2_cents[OF c cs m splitAmountOf_bound[OF p]] by simp
    show "balance (players ?db' ! i) = balance (?ps ! i) + ?smax"
      if "?ps ! i \<in> set (maxWinnersOf ?ps)"
      unfolding emax[OF i that]
      using plusToFixed2_cents[OF c cs m splitAmountOf_bound[OF p]] by simp
  qed
  have hist: "history ?db' = history db @ [?h]" by simp
  have names: "map winnerName (winners ?h) = map username (minWinnersOf ?ps @ maxWinnersOf ?ps)"
    using normalWinnersInfo_names[of "pot gs" ?ps] by simp
  have amounts: "map amount (winners ?h) =
           replicate (length (minWinnersOf ?ps)) ?smin @
           replicate (length (maxWinnersOf ?ps)) ?smax"
    using normalWinnersInfo_amounts[of "pot gs" ?ps] by simp
  have sh: "shareOf (pot gs) ?ps =
           (if minPlayersOf ?ps \<noteq> [] \<and> maxPlayersOf ?ps \<noteq> []
            then fl (pot gs) / 2 else fl (pot gs))"
    by (simp add: shareOf_def)
  have split: "\<forall>ws. ws \<noteq> [] \<longrightarrow>
             splitAmountOf (pot gs) ?ps ws =
               toFixed2 (fl (shareOf (pot gs) ?ps / real (length ws)))
           \<and> isCents (splitAmountOf (pot gs) ?ps ws)
           \<and> \<bar>splitAmountOf (pot gs) ?ps ws - shareOf (pot gs) ?ps / real (length ws)\<bar>
               \<le> 1 / 200 + \<bar>shareOf (pot gs) ?ps / real (length ws)\<bar> / 2 ^ 53"
  proof (intro allI impI conjI)
    fix ws :: "Player list"
    show "splitAmountOf (pot gs) ?ps ws =
               toFixed2 (fl (shareOf (pot gs) ?ps / real (length ws)))"
      by (simp only: splitAmountOf_def)
    show "isCents (splitAmountOf (pot gs) ?ps ws)"
      unfolding splitAmountOf_def by (rule isCents_toFixed2)
    show "\<bar>splitAmountOf (pot gs) ?ps ws - shareOf (pot gs) ?ps / real (length ws)\<bar>
               \<le> 1 / 200 + \<bar>shareOf (pot gs) ?ps / real (length ws)\<bar> / 2 ^ 53"
      by (rule splitAmountOf_near)
  qed
  have ex1: "balancesAfter (calculateWinners None now settleStore) = [1 + 5 / 2, 2 + 5 / 2, 3 + 5]"
    unfolding settleStore_result by (simp add: balancesAfter_def mkPlayer_def)
  have ex2: "potAfter (Inr settleStore) = Some (5 / 2 + 5 / 2 + 5)"
    by (simp add: potAfter_def settleStore_def mkTable_def)
  show ?thesis
    apply (rule exI[of _ ?db'], rule exI[of _ ?h])
    apply (intro conjI)
    subgoal by (rule r)
    subgoal by (rule len)
    subgoal by (rule each)
    subgoal by (rule cents)
    subgoal by (rule hist)
    subgoal by (rule names)
    subgoal by (rule amounts)
    subgoal by (rule sh)
    subgoal by (rule fl_error)
    subgoal by (rule split)
    subgoal by (rule minPlayersOf_set)
    subgoal by (rule maxPlayersOf_set)
    subgoal by (rule minWinnersOf_set)
    subgoal by (rule maxWinnersOf_set)
    subgoal using minWinners_nonempty by blast
    subgoal using maxWinners_nonempty by blast
    subgoal by (rule ex1)
    subgoal by (rule ex2)
    done
qed

lemma list3: "length xs = 3 \<Longrightarrow> xs = [xs ! 0, xs ! 1, xs ! 2]"
  by (auto simp: length_Suc_conv numeral_3_eq_3)

theorem calculateWinners_splits_pot_witness:
  "gameState tieStore = Some ((mkTable 4 [] [])\<lparr>phase := Final, pot := 3 / 10\<rparr>)
   \<and> distinct (map pid (players tieStore))
   \<and> declaredPlayers (players tieStore) \<noteq> []
   \<and> minWinnersOf (players tieStore) = [players tieStore ! 0, players tieStore ! 1]
   \<and> maxWinnersOf (players tieStore) = [players tieStore ! 2]
   \<and> map balance (players tieStore) = [1, 2, 3]
   \<and> (\<exists>db' h. calculateWinners None 1000 tieStore = Inr db'
          \<and> map balance (players db') = [107 / 100, 207 / 100, 315 / 100]
          \<and> history db' = [h]
          \<and> map amount (winners h) = [7 / 100, 7 / 100, 15 / 100])"
proof -
  let ?ps = "players tieStore"
  let ?gs = "(mkTable 4 [] [])\<lparr>phase := Final, pot := 3 / 10\<rparr>"
  have ps: "?ps = players settleStore" by (simp add: tieStore_def)
  have g: "gameState tieStore = Some ?gs" by (simp add: tieStore_def)
  have hs: "history tieStore = []" by (simp add: tieStore_def settleStore_def)
  have d: "distinct (map pid ?ps)" by (simp add: ps settleStore_def mkPlayer_def)
  have dp: "declaredPlayers ?ps = ?ps"
    by (simp add: ps declaredPlayers_def settleStore_def mkPlayer_def)
  have ne: "declaredPlayers ?ps \<noteq> []" by (simp add: dp) (simp add: ps settleStore_def)
  have mn: "minPlayersOf ?ps = [?ps ! 0, ?ps ! 1]" and mx: "maxPlayersOf ?ps = [?ps ! 2]"
    by (simp_all add: minPlayersOf_def maxPlayersOf_def dp)
       (simp_all add: ps settleStore_def mkPlayer_def)
  have mw: "minWinnersOf ?ps = [?ps ! 0, ?ps ! 1]"
    by (simp add: minWinnersOf_def mn mathMin_def) (simp add: ps settleStore_def mkPlayer_def Let_def)
  have xw: "maxWinnersOf ?ps = [?ps ! 2]"
    by (simp add: maxWinnersOf_def mx mathMax_def) (simp add: ps settleStore_def mkPlayer_def Let_def)
  have b: "map balance ?ps = [1, 2, 3]" by (simp add: ps settleStore_def mkPlayer_def)
  have l: "length ?ps = 3" by (simp add: ps settleStore_def)
  have pg: "pot ?gs = 3 / 10" by simp
  have f3: "fl (3 / 10) = 5404319552844595 / 18014398509481984"
    by (simp add: fl_def frexp53_numeral roundEven_def)
  have sh: "shareOf (3 / 10) ?ps = 5404319552844595 / 36028797018963968"
    by (simp add: shareOf_def mn mx f3)
  have lmw: "length (minWinnersOf ?ps) = 2" and lxw: "length (maxWinnersOf ?ps) = 1"
    by (simp_all add: mw xw)
  have s1: "splitAmountOf (3 / 10) ?ps (minWinnersOf ?ps) = 7 / 100"
    unfolding splitAmountOf_def sh lmw
    by (simp add: fl_def frexp53_numeral roundEven_def toFixed2_def)
  have s2: "splitAmountOf (3 / 10) ?ps (maxWinnersOf ?ps) = 15 / 100"
    unfolding splitAmountOf_def sh lxw
    by (simp add: fl_def frexp53_numeral roundEven_def toFixed2_def)
  from calculateWinners_splits_pot[OF g d ne, of 1000]
  obtain db' h where r: "calculateWinners None 1000 tieStore = Inr db'"
    and len: "length (players db') = length ?ps"
    and each: "\<forall>i < length ?ps.
             (?ps ! i \<in> set (minWinnersOf ?ps) \<longrightarrow>
                players db' ! i = (?ps ! i)\<lparr>balance :=
                  toFixed2 (fl (fl (balance (?ps ! i)) +
                    fl (splitAmountOf (pot ?gs) ?ps (minWinnersOf ?ps))))\<rparr>)
           \<and> (?ps ! i \<in> set (maxWinnersOf ?ps) \<longrightarrow>
                players db' ! i = (?ps ! i)\<lparr>balance :=
                  toFixed2 (fl (fl (balance (?ps ! i)) +
                    fl (splitAmountOf (pot ?gs) ?ps (maxWinnersOf ?ps))))\<rparr>)
           \<and> (?ps ! i \<notin> set (minWinnersOf ?ps) \<union> set (maxWinnersOf ?ps)
                \<longrightarrow> players db' ! i = ?ps ! i)"
    and hist: "history db' = history tieStore @ [h]"
    and am: "map amount (winners h) =
           replicate (length (minWinnersOf ?ps))
             (splitAmountOf (pot ?gs) ?ps (minWinnersOf ?ps)) @
           replicate (length (maxWinnersOf ?ps))
             (splitAmountOf (pot ?gs) ?ps (maxWinnersOf ?ps))"
    by (elim exE conjE) (rule that; assumption)
  have b0: "balance (?ps ! 0) = 1" and b1: "balance (?ps ! 1) = 2" and b2: "balance (?ps ! 2) = 3"
    by (simp_all add: ps settleStore_def mkPlayer_def)
  have v0: "toFixed2 (fl (fl (balance (?ps ! 0)) +
              fl (splitAmountOf (pot ?gs) ?ps (minWinnersOf ?ps)))) = 107 / 100"
    unfolding pg s1 b0 by (simp add: fl_def frexp53_numeral roundEven_def toFixed2_def)
  have v1: "toFixed2 (fl (fl (balance (?ps ! 1)) +
              fl (splitAmountOf (pot ?gs) ?ps (minWinnersOf ?ps)))) = 207 / 100"
    unfolding pg s1 b1 by (simp add: fl_def frexp53_numeral roundEven_def toFixed2_def)
  have v2: "toFixed2 (fl (fl (balance (?ps ! 2)) +
              fl (splitAmountOf (pot ?gs) ?ps (maxWinnersOf ?ps)))) = 315 / 100"
    unfolding pg s2 b2 by (simp add: fl_def frexp53_numeral roundEven_def toFixed2_def)
  have i0: "0 < length ?ps" and i1: "1 < length ?ps" and i2: "2 < length ?ps"
    by (simp_all add: l)
  have m0: "?ps ! 0 \<in> set (minWinnersOf ?ps)" and m1: "?ps ! 1 \<in> set (minWinnersOf ?ps)"
    and m2: "?ps ! 2 \<in> set (maxWinnersOf ?ps)"
    by (simp_all add: mw xw)
  have e0: "players db' ! 0 = (?ps ! 0)\<lparr>balance := 107 / 100\<rparr>"
    using each[rule_format, OF i0, THEN conjunct1, rule_format, OF m0] by (simp only: v0)
  have e1: "players db' ! 1 = (?ps ! 1)\<lparr>balance := 207 / 100\<rparr>"
    using each[rule_format, OF i1, THEN conjunct1, rule_format, OF m1] by (simp only: v1)
  have e2: "players db' ! 2 = (?ps ! 2)\<lparr>balance := 315 / 100\<rparr>"
    using each[rule_format, OF i2, THEN conjunct2, THEN conjunct1, rule_format, OF m2]
    by (simp only: v2)
  have "length (players db') = 3" using len l by simp
  then have "players db' = [players db' ! 0, players db' ! 1, players db' ! 2]"
    by (rule list3)
  then have "map balance (players db') =
             [balance (players db' ! 0), balance (players db' ! 1), balance (players db' ! 2)]"
    by (metis list.simps(8,9))
  then have bs: "map balance (players db') = [107 / 100, 207 / 100, 315 / 100]"
    unfolding e0 e1 e2 by simp
  have h1: "history db' = [h]" using hist hs by simp
  have am': "map amount (winners h) = [7 / 100, 7 / 100, 15 / 100]"
    using am unfolding pg s1 s2 lmw lxw by (simp add: numeral_2_eq_2)
  show ?thesis using g d ne mw xw b r bs h1 am' by (intro conjI exI[of _ db'] exI[of _ h]) simp_all
qed

section \<open>Revealing a shared card\<close>

lemma lastReveal_eval:
  "revealNextCard 0 0 lastRevealStore =
     Inr (lastRevealStore\<lparr>
       gameState := Some ((mkTable 4
          [deckCard ''2'' 0, deckCard ''3'' 0, deckCard ''4'' 0, deckCard ''A'' 0] [])
          \<lparr>phase := Final\<rparr>),
       players := players lastRevealStore\<rparr>)"
proof -
  have g: "gameState lastRevealStore =
      Some ((mkTable 4 [deckCard ''2'' 0, deckCard ''3'' 0, deckCard ''4'' 0] [])\<lparr>phase := Revealing\<rparr>)"
    by (simp add: lastRevealStore_def)
  have rs: "map resetBets (players lastRevealStore) = players lastRevealStore"
    by (simp add: lastRevealStore_def dealtStore_def mkPlayer_def resetBets_def)
  show ?thesis
    unfolding revealNextCard_def g
    by (simp add: mkTable_def randomIndex_def rs Let_def deckCard_def SUITS_def VALUES_def)
qed


lemma firstReveal_eval:
  "revealNextCard (12 / 13) 0 dealtStore =
     Inr (dealtStore\<lparr>
       gameState := Some ((mkTable 4 [deckCard ''K'' 0] [])\<lparr>waitingForDealer := True\<rparr>),
       players := players dealtStore\<rparr>)"
proof -
  have g: "gameState dealtStore = Some ((mkTable 4 [] [])\<lparr>phase := Revealing\<rparr>)"
    by (simp add: dealtStore_def)
  have ad: "applySilentDiscard dealtStore = dealtStore"
    by (simp add: applySilentDiscard_def g mkTable_def)
  have rs: "map resetBets (players dealtStore) = players dealtStore"
    by (simp add: dealtStore_def mkPlayer_def resetBets_def)
  show ?thesis
    unfolding revealNextCard_def g ad
    by (simp add: mkTable_def randomIndex_def rs Let_def deckCard_def SUITS_def VALUES_def)
qed

lemma secondReveal_eval:
  "revealNextCard 0 0 (dealtStore\<lparr>
       gameState := Some ((mkTable 4 [deckCard ''K'' 0] [])\<lparr>waitingForDealer := True\<rparr>),
       players := players dealtStore\<rparr>) =
     Inr (dealtStore\<lparr>
       gameState := Some ((mkTable 4 [deckCard ''K'' 0, deckCard ''A'' 0] [])
                            \<lparr>waitingForDealer := True\<rparr>),
       players := [(mkPlayer ''p1'' 0 10)
                   \<lparr>hand := Some [deckCard ''A'' 3, deckCard ''7'' 2, deckCard ''9'' 2,
                                  deckCard ''8'' 2],
                    originalHand := Some [deckCard ''A'' 3, deckCard ''K'' 1, deckCard ''7'' 2,
                                  deckCard ''9'' 2, deckCard ''8'' 2],
                    discardedCards := [deckCard ''K'' 1]\<rparr>]\<rparr>)"
  by (simp add: revealNextCard_def applySilentDiscard_def discardPlayer_def uniqueDiscarded_def
        dealtStore_def mkTable_def mkPlayer_def randomIndex_def resetBets_def Let_def
        deckCard_def SUITS_def VALUES_def)


text \<open>
  Claim C3, at the last shared card of a round: with 2, 3 and 4 on a table of four cards and
  both values of \<open>Math.random()\<close> being 0, \<open>revealNextCard\<close> reveals an Ace and ends in
  the phase \<open>final\<close>, and the player's hand still holds its Ace with nothing discarded. At
  the earlier cards the discard runs on the table as it was before the new card: revealing
  a King first discards nothing, and the Ace revealed next discards the King and keeps the
  Ace.
\<close>

theorem revealNextCard_last_card_keeps_matching_cards:
  "phaseAfter (revealNextCard 0 0 lastRevealStore) = Some Final
   \<and> revealedAfter (revealNextCard 0 0 lastRevealStore) =
       [deckCard ''2'' 0, deckCard ''3'' 0, deckCard ''4'' 0, deckCard ''A'' 0]
   \<and> handsAfter (revealNextCard 0 0 lastRevealStore) =
       [[deckCard ''A'' 3, deckCard ''K'' 1, deckCard ''7'' 2, deckCard ''9'' 2, deckCard ''8'' 2]]
   \<and> discardedAfter (revealNextCard 0 0 lastRevealStore) = [[]]
   \<and> phaseAfter (revealNextCard (12 / 13) 0 dealtStore) = Some Betting
   \<and> revealedAfter (revealNextCard (12 / 13) 0 dealtStore) = [deckCard ''K'' 0]
   \<and> handsAfter (revealNextCard (12 / 13) 0 dealtStore) =
       [[deckCard ''A'' 3, deckCard ''K'' 1, deckCard ''7'' 2, deckCard ''9'' 2, deckCard ''8'' 2]]
   \<and> revealedAfter (revealNextCard 0 0
         (storeAfter dealtStore (revealNextCard (12 / 13) 0 dealtStore))) =
       [deckCard ''K'' 0, deckCard ''A'' 0]
   \<and> handsAfter (revealNextCard 0 0
         (storeAfter dealtStore (revealNextCard (12 / 13) 0 dealtStore))) =
       [[deckCard ''A'' 3, deckCard ''7'' 2, deckCard ''9'' 2, deckCard ''8'' 2]]
   \<and> discardedAfter (revealNextCard 0 0
         (storeAfter dealtStore (revealNextCard (12 / 13) 0 dealtStore))) =
       [[deckCard ''K'' 1]]"
proof -
  have h: "map cardsOf (players lastRevealStore) =
       [[deckCard ''A'' 3, deckCard ''K'' 1, deckCard ''7'' 2, deckCard ''9'' 2, deckCard ''8'' 2]]"
    "map discardedCards (players lastRevealStore) = [[]]"
    "map cardsOf (players dealtStore) =
       [[deckCard ''A'' 3, deckCard ''K'' 1, deckCard ''7'' 2, deckCard ''9'' 2, deckCard ''8'' 2]]"
    by (simp_all add: lastRevealStore_def dealtStore_def mkPlayer_def cardsOf_def)
  have s: "storeAfter dealtStore (revealNextCard (12 / 13) 0 dealtStore) =
       dealtStore\<lparr>
       gameState := Some ((mkTable 4 [deckCard ''K'' 0] [])\<lparr>waitingForDealer := True\<rparr>),
       players := players dealtStore\<rparr>"
    by (simp only: firstReveal_eval storeAfter_def sum.case)
  show ?thesis
    unfolding s
    unfolding lastReveal_eval firstReveal_eval secondReveal_eval
    by (simp add: phaseAfter_def revealedAfter_def handsAfter_def discardedAfter_def h)
       (simp add: mkTable_def mkPlayer_def cardsOf_def)
qed

section \<open>History and pot at settlement\<close>

lemma jackpot_eval:
  assumes "gameState db = Some gs" and "i \<noteq> []" and "lookupPlayer (players db) i = Some w"
  shows "calculateWinners (Some i) now db =
         Inr (db\<lparr>players := applyBalances [(pid w, plusToFixed2 (balance w) (pot gs))] (players db),
                 history := history db @
                   [\<lparr>winners = [\<lparr>winnerName = username w, amount = toFixed2 (fl (pot gs)),
                                  tag = LasVegas\<rparr>],
                     potAmount = pot gs, timestamp = now\<rparr>],
                 gameState := Some (gs\<lparr>phase := Results, isFirstHand := False\<rparr>)\<rparr>)"
  using assms by (simp add: calculateWinners_def commitSettlement_def Let_def)

lemma normal_eval_empty_id:
  "calculateWinners (Some []) now db = calculateWinners None now db"
  by (cases "gameState db") (simp_all add: calculateWinners_def)

text \<open>
  Claim C2 as stated fails: the settlement leaves the pot in the table. After the
  settlement by scores, and after the jackpot for A, of the table with 10.00 in the pot the
  pot is still 10.00.
\<close>

theorem settlement_keeps_pot_counterexample:
  "potAfter (calculateWinners None 1000 settleStore) = Some 10
   \<and> potAfter (calculateWinners (Some ''A'') 1000 settleStore) = Some 10
   \<and> potAfter (calculateWinners None 1000 settleStore) \<noteq> Some 0"
proof -
  have g: "gameState settleStore = Some ((mkTable 4 [] [])\<lparr>phase := Final, pot := 10\<rparr>)"
    by (simp add: settleStore_def)
  have lk: "lookupPlayer (players settleStore) ''A'' = Some (players settleStore ! 0)"
    by (simp add: settleStore_def lookupPlayer_def mkPlayer_def)
  have na: "''A'' \<noteq> []" by simp
  have a: "potAfter (calculateWinners None 1000 settleStore) = Some 10"
    unfolding settleStore_result by (simp add: potAfter_def mkTable_def)
  have b: "potAfter (calculateWinners (Some ''A'') 1000 settleStore) = Some 10"
    unfolding jackpot_eval[OF g na lk] by (simp add: potAfter_def)
  show ?thesis using a b by simp
qed

text \<open>
  Claim C2 as amended. A settlement that names a winner (by scores with at least one
  declared player not folded, or the jackpot for a seated player) appends one history entry
  with the winners, the pot and the time, and sets the phase \<open>results\<close>; it leaves the pot
  in the table as it was. The pot becomes 0 when the admin then calls \<open>handleNextHand\<close>,
  which keeps the history.
\<close>

theorem settlement_appends_history_pot_reset_by_next_hand:
  assumes "gameState db = Some gs"
    and "((sid = None \<or> sid = Some []) \<and> declaredPlayers (players db) \<noteq> [])
         \<or> (\<exists>i w. sid = Some i \<and> i \<noteq> [] \<and> lookupPlayer (players db) i = Some w)"
  shows "\<exists>db' gs' h db2 gs2.
           calculateWinners sid now db = Inr db'
         \<and> history db' = history db @ [h]
         \<and> winners h \<noteq> [] \<and> potAmount h = pot gs \<and> timestamp h = now
         \<and> gameState db' = Some gs' \<and> phase gs' = Results \<and> pot gs' = pot gs
         \<and> handleNextHand True db' = Inr db2
         \<and> gameState db2 = Some gs2 \<and> pot gs2 = 0 \<and> phase gs2 = Lobby
         \<and> history db2 = history db'"
proof -
  have nh: "\<And>db' gs'. gameState db' = Some gs' \<Longrightarrow>
      \<exists>db2 gs2. handleNextHand True db' = Inr db2 \<and> gameState db2 = Some gs2 \<and> pot gs2 = 0
         \<and> phase gs2 = Lobby \<and> history db2 = history db'"
    by (simp add: handleNextHand_def)
  from assms(2) show ?thesis
  proof
    assume a: "(sid = None \<or> sid = Some []) \<and> declaredPlayers (players db) \<noteq> []"
    let ?h = "\<lparr>winners = normalWinnersInfo (pot gs) (players db), potAmount = pot gs,
               timestamp = now\<rparr>"
    let ?gs' = "gs\<lparr>phase := Results, isFirstHand := False\<rparr>"
    let ?db' = "db\<lparr>players := applyBalances (normalUpdates (pot gs) (players db)) (players db),
                 history := history db @ [?h], gameState := Some ?gs'\<rparr>"
    have r: "calculateWinners sid now db = Inr ?db'"
      using a calculateWinners_normal[OF assms(1), of now] normal_eval_empty_id[of now db]
      by auto
    have g': "gameState ?db' = Some ?gs'" by simp
    from nh[OF g'] obtain db2 gs2 where n: "handleNextHand True ?db' = Inr db2"
      "gameState db2 = Some gs2" "pot gs2 = 0" "phase gs2 = Lobby" "history db2 = history ?db'"
      by blast
    have w: "winners ?h \<noteq> []" using a normalWinnersInfo_nonempty by simp
    show ?thesis
      apply (rule exI[of _ ?db'], rule exI[of _ ?gs'], rule exI[of _ ?h],
             rule exI[of _ db2], rule exI[of _ gs2])
      using r n w by simp
  next
    assume "\<exists>i w. sid = Some i \<and> i \<noteq> [] \<and> lookupPlayer (players db) i = Some w"
    then obtain i w where s: "sid = Some i" and i: "i \<noteq> []"
      and lk: "lookupPlayer (players db) i = Some w" by blast
    let ?h = "\<lparr>winners = [\<lparr>winnerName = username w, amount = toFixed2 (fl (pot gs)),
                                  tag = LasVegas\<rparr>],
               potAmount = pot gs, timestamp = now\<rparr>"
    let ?gs' = "gs\<lparr>phase := Results, isFirstHand := False\<rparr>"
    let ?db' = "db\<lparr>players := applyBalances [(pid w, plusToFixed2 (balance w) (pot gs))] (players db),
                 history := history db @ [?h], gameState := Some ?gs'\<rparr>"
    have r: "calculateWinners sid now db = Inr ?db'"
      unfolding s by (rule jackpot_eval[OF assms(1) i lk])
    have g': "gameState ?db' = Some ?gs'" by simp
    from nh[OF g'] obtain db2 gs2 where n: "handleNextHand True ?db' = Inr db2"
      "gameState db2 = Some gs2" "pot gs2 = 0" "phase gs2 = Lobby" "history db2 = history ?db'"
      by blast
    show ?thesis
      apply (rule exI[of _ ?db'], rule exI[of _ ?gs'], rule exI[of _ ?h],
             rule exI[of _ db2], rule exI[of _ gs2])
      using r n by simp
  qed
qed

theorem settlement_appends_history_pot_reset_by_next_hand_witness:
  "gameState settleStore = Some ((mkTable 4 [] [])\<lparr>phase := Final, pot := 10\<rparr>)
   \<and> declaredPlayers (players settleStore) \<noteq> []
   \<and> lookupPlayer (players settleStore) ''A'' = Some (players settleStore ! 0)
   \<and> history settleStore = []
   \<and> (\<exists>db' h db2. calculateWinners None 1000 settleStore = Inr db'
          \<and> history db' = [h] \<and> potAmount h = 10 \<and> timestamp h = 1000
          \<and> potAfter (Inr db') = Some 10
          \<and> handleNextHand True db' = Inr db2 \<and> potAfter (Inr db2) = Some 0)
   \<and> (\<exists>db' h db2. calculateWinners (Some ''A'') 1000 settleStore = Inr db'
          \<and> history db' = [h] \<and> potAmount h = 10 \<and> timestamp h = 1000
          \<and> potAfter (Inr db') = Some 10
          \<and> handleNextHand True db' = Inr db2 \<and> potAfter (Inr db2) = Some 0)"
proof -
  let ?gs = "(mkTable 4 [] [])\<lparr>phase := Final, pot := 10\<rparr>"
  have g: "gameState settleStore = Some ?gs" by (simp add: settleStore_def)
  have ne: "declaredPlayers (players settleStore) \<noteq> []"
    by (simp add: declaredPlayers_def settleStore_def mkPlayer_def)
  have lk: "lookupPlayer (players settleStore) ''A'' = Some (players settleStore ! 0)"
    by (simp add: settleStore_def lookupPlayer_def mkPlayer_def)
  have hs: "history settleStore = []" by (simp add: settleStore_def)
  have pg: "pot ?gs = 10" by simp
  have h1: "((None::string option) = None \<or> None = Some []) \<and> declaredPlayers (players settleStore) \<noteq> []
         \<or> (\<exists>i w. (None::string option) = Some i \<and> i \<noteq> [] \<and> lookupPlayer (players settleStore) i = Some w)"
    using ne by simp
  have h2: "((Some ''A'' = None \<or> Some ''A'' = Some []) \<and> declaredPlayers (players settleStore) \<noteq> [])
         \<or> (\<exists>i w. Some ''A'' = Some i \<and> i \<noteq> [] \<and> lookupPlayer (players settleStore) i = Some w)"
    using lk by simp
  have a: "\<exists>db' h db2. calculateWinners None 1000 settleStore = Inr db'
          \<and> history db' = [h] \<and> potAmount h = 10 \<and> timestamp h = 1000
          \<and> potAfter (Inr db') = Some 10
          \<and> handleNextHand True db' = Inr db2 \<and> potAfter (Inr db2) = Some 0"
    using settlement_appends_history_pot_reset_by_next_hand[OF g h1, of 1000]
    unfolding pg hs by (auto simp: potAfter_def)
  have b: "\<exists>db' h db2. calculateWinners (Some ''A'') 1000 settleStore = Inr db'
          \<and> history db' = [h] \<and> potAmount h = 10 \<and> timestamp h = 1000
          \<and> potAfter (Inr db') = Some 10
          \<and> handleNextHand True db' = Inr db2 \<and> potAfter (Inr db2) = Some 0"
    using settlement_appends_history_pot_reset_by_next_hand[OF g h2, of 1000]
    unfolding pg hs by (auto simp: potAfter_def)
  show ?thesis using g ne lk hs a b by (intro conjI)
qed


end
